theory Spec2Isabelle
  imports Main "HOL-Library.Word"
begin

unbundle bit_operations_syntax

section \<open>JavaScript values and typed arrays\<close>

text \<open>
  The emulator is written in JavaScript. Its numbers are modelled as \<open>int\<close>; the
  non-numbers the code can produce are kept as values of their own: \<open>Undefined\<close> is what a
  read beyond the end of an array (or of a missing property) gives, \<open>NaN\<close> is what
  arithmetic on it gives, \<open>Null\<close> is the address of an instruction that has none.

  The bitwise operators of JavaScript first coerce their operands to 32-bit integers
  (non-numbers become 0). The code applies them to registers and bytes far below
  \<open>2 ^ 31\<close> and keeps the low bits of the result, where they agree with the bit
  operations of HOL on \<open>int\<close>: a shift to the left is \<open>push_bit\<close>, a shift to the right
  is \<open>drop_bit\<close>.
\<close>

datatype jsval = Num int | NaN | Undefined | Null

fun to_int :: "jsval \<Rightarrow> int" where
  "to_int (Num n) = n"
| "to_int _ = 0"

text \<open>\<open>to_num\<close> is the coercion of arithmetic and comparison: \<open>null\<close> counts as 0.\<close>

fun to_num :: "jsval \<Rightarrow> jsval" where
  "to_num (Num n) = Num n"
| "to_num Null = Num 0"
| "to_num _ = NaN"

definition js_add :: "jsval \<Rightarrow> jsval \<Rightarrow> jsval" where
  "js_add a b = (case (to_num a, to_num b) of (Num x, Num y) \<Rightarrow> Num (x + y) | _ \<Rightarrow> NaN)"

definition js_sub :: "jsval \<Rightarrow> jsval \<Rightarrow> jsval" where
  "js_sub a b = (case (to_num a, to_num b) of (Num x, Num y) \<Rightarrow> Num (x - y) | _ \<Rightarrow> NaN)"

definition js_lt :: "jsval \<Rightarrow> jsval \<Rightarrow> bool" where
  "js_lt a b = (case (to_num a, to_num b) of (Num x, Num y) \<Rightarrow> x < y | _ \<Rightarrow> False)"

definition js_ge :: "jsval \<Rightarrow> jsval \<Rightarrow> bool" where
  "js_ge a b = (case (to_num a, to_num b) of (Num x, Num y) \<Rightarrow> x \<ge> y | _ \<Rightarrow> False)"

text \<open>
  A \<open>Uint8Array\<close> has a fixed length. Reading outside it gives \<open>undefined\<close>, writing
  outside it is ignored, and a stored value is reduced modulo 256.
\<close>

definition ta_get :: "int list \<Rightarrow> int \<Rightarrow> jsval" where
  "ta_get xs i = (if 0 \<le> i \<and> i < int (length xs) then Num (xs ! nat i) else Undefined)"

definition ta_set :: "int list \<Rightarrow> int \<Rightarrow> int \<Rightarrow> int list" where
  "ta_set xs i b = (if 0 \<le> i \<and> i < int (length xs) then xs[nat i := b mod 256] else xs)"

section \<open>Cartridge and mappers (cartridge.js)\<close>

datatype mirroring = Horizontal | Vertical | Single0 | Single1

record mapper1 =
  m1_shift :: int
  m1_ctrl :: int
  m1_prgBank :: int
  m1_chrBank0 :: int
  m1_chrBank1 :: int

text \<open>
  The registers of mapper 4, as its methods use them. The constructor of \<open>Mapper4\<close> assigns
  \<open>this.mirror\<close>, which the base class \<open>Mapper\<close> declares with a getter and no setter.
  Class bodies are strict code, so that assignment throws a \<open>TypeError\<close>: no object of
  this class is ever completed, and \<open>parseINES\<close> fails on a file that asks for mapper 4
  (\<open>instantiate_mapper\<close> below). The methods of the class are modelled as they are
  written; a cartridge whose \<open>mapperInstance\<close> is a \<open>Mapper4\<close> is a state that the
  program itself never builds.
\<close>

record mapper4 =
  m4_bankSelect :: int
  m4_banks :: "int list"
  m4_prgMode :: int
  m4_chrMode :: int

datatype mapper =
    Mapper0
  | Mapper1 mapper1
  | Mapper2 int
  | Mapper3 int
  | Mapper4 mapper4

record cartridge =
  prg :: "int list"
  chr :: "int list"
  chrRAM :: bool
  sram :: "int list"
  cart_mirror :: mirroring
  mapperInstance :: mapper

text \<open>\<open>Cartridge.read\<close>: the PRG image from \<open>$8000\<close>, with no mirroring of a short image.\<close>

definition cart_read :: "cartridge \<Rightarrow> int \<Rightarrow> jsval" where
  "cart_read c addr = (if addr \<ge> 0x8000 then ta_get (prg c) (addr - 0x8000) else Num 0)"

text \<open>The table \<open>['horizontal','vertical','single0','single1'][data & 3]\<close>.\<close>

definition m1_mirror_of :: "int \<Rightarrow> mirroring" where
  "m1_mirror_of d =
     (if d = 0 then Horizontal else if d = 1 then Vertical
      else if d = 2 then Single0 else Single1)"

text \<open>\<open>Mapper1.writeReg\<close>; \<open>m\<close> is the mapper object and \<open>c\<close> the cartridge it points to.\<close>

definition Mapper1_writeReg :: "mapper1 \<Rightarrow> cartridge \<Rightarrow> int \<Rightarrow> int \<Rightarrow> cartridge" where
  "Mapper1_writeReg m c addr val =
     (if val AND 0x80 \<noteq> 0
      then c\<lparr>mapperInstance := Mapper1 (m\<lparr>m1_shift := 0x10, m1_ctrl := m1_ctrl m OR 0x0C\<rparr>)\<rparr>
      else
        let complete = m1_shift m AND 1;
            sh = drop_bit 1 (m1_shift m) OR push_bit 4 (val AND 1)
        in if complete \<noteq> 0 then
             let reg = drop_bit 13 addr AND 3;
                 data = sh AND 0x1F;
                 m' = m\<lparr>m1_shift := 0x10\<rparr>
             in if reg = 0 then
                  c\<lparr>cart_mirror := m1_mirror_of (data AND 3),
                    mapperInstance := Mapper1 (m'\<lparr>m1_ctrl := data\<rparr>)\<rparr>
                else if reg = 1 then c\<lparr>mapperInstance := Mapper1 (m'\<lparr>m1_chrBank0 := data\<rparr>)\<rparr>
                else if reg = 2 then c\<lparr>mapperInstance := Mapper1 (m'\<lparr>m1_chrBank1 := data\<rparr>)\<rparr>
                else if reg = 3 then
                  c\<lparr>mapperInstance := Mapper1 (m'\<lparr>m1_prgBank := data AND 0x0F\<rparr>)\<rparr>
                else c\<lparr>mapperInstance := Mapper1 m'\<rparr>
           else c\<lparr>mapperInstance := Mapper1 (m\<lparr>m1_shift := sh\<rparr>)\<rparr>)"

text \<open>\<open>Mapper4.prgWrite\<close>, a method of a class whose constructor always throws.\<close>

definition Mapper4_prgWrite :: "mapper4 \<Rightarrow> cartridge \<Rightarrow> int \<Rightarrow> int \<Rightarrow> cartridge" where
  "Mapper4_prgWrite m c addr val =
     (if addr AND 1 = 0 then
        (if addr AND 0x6000 = 0 then
           c\<lparr>mapperInstance := Mapper4 (m\<lparr>m4_bankSelect := val,
                 m4_chrMode := drop_bit 7 val AND 1, m4_prgMode := drop_bit 6 val AND 1\<rparr>)\<rparr>
         else if addr AND 0x6000 = 0x2000 then
           c\<lparr>cart_mirror := (if val AND 1 \<noteq> 0 then Horizontal else Vertical)\<rparr>
         else c)
      else
        (if addr AND 0x6000 = 0 then
           c\<lparr>mapperInstance :=
               Mapper4 (m\<lparr>m4_banks := ta_set (m4_banks m) (m4_bankSelect m AND 7) val\<rparr>)\<rparr>
         else c))"

text \<open>\<open>prgWrite\<close> of the mapper object, by its class.\<close>

definition prgWrite :: "cartridge \<Rightarrow> int \<Rightarrow> int \<Rightarrow> cartridge" where
  "prgWrite c addr val =
     (case mapperInstance c of
        Mapper0 \<Rightarrow> c
      | Mapper1 m \<Rightarrow> Mapper1_writeReg m c addr val
      | Mapper2 b \<Rightarrow> c\<lparr>mapperInstance := Mapper2 (val AND 0x0F)\<rparr>
      | Mapper3 b \<Rightarrow> c\<lparr>mapperInstance := Mapper3 (val AND 0x03)\<rparr>
      | Mapper4 m \<Rightarrow> Mapper4_prgWrite m c addr val)"

text \<open>
  \<open>chrRead\<close> and \<open>chrWrite\<close> of the mapper object, by its class: mappers 0, 2 and 4 share
  the write of the base class, mappers 0 and 2 its read; mapper 3 banks its reads only.
\<close>

definition Mapper_chrRead :: "cartridge \<Rightarrow> int \<Rightarrow> jsval" where
  "Mapper_chrRead c addr = ta_get (chr c) (addr AND (int (length (chr c)) - 1))"

definition Mapper_chrWrite :: "cartridge \<Rightarrow> int \<Rightarrow> int \<Rightarrow> cartridge" where
  "Mapper_chrWrite c addr val =
     (if chrRAM c then c\<lparr>chr := ta_set (chr c) (addr AND (int (length (chr c)) - 1)) val\<rparr>
      else c)"

definition Mapper1_chrRead :: "mapper1 \<Rightarrow> cartridge \<Rightarrow> int \<Rightarrow> jsval" where
  "Mapper1_chrRead m c addr =
     (let mode = drop_bit 4 (m1_ctrl m) AND 1
      in if mode = 0 then
           (let base = (m1_chrBank0 m AND 0x1E) * 0x1000 in ta_get (chr c) (base + addr))
         else
           (let base = (if addr < 0x1000 then m1_chrBank0 m else m1_chrBank1 m) * 0x1000
            in ta_get (chr c) (base + (addr AND 0x0FFF))))"

definition Mapper1_chrWrite :: "mapper1 \<Rightarrow> cartridge \<Rightarrow> int \<Rightarrow> int \<Rightarrow> cartridge" where
  "Mapper1_chrWrite m c addr val =
     (if chrRAM c then
        (let mode = drop_bit 4 (m1_ctrl m) AND 1
         in if mode = 0 then
              (let base = (m1_chrBank0 m AND 0x1E) * 0x1000
               in c\<lparr>chr := ta_set (chr c) (base + addr) val\<rparr>)
            else
              (let base = (if addr < 0x1000 then m1_chrBank0 m else m1_chrBank1 m) * 0x1000
               in c\<lparr>chr := ta_set (chr c) (base + (addr AND 0x0FFF)) val\<rparr>))
      else c)"

definition Mapper4_chrAt :: "mapper4 \<Rightarrow> cartridge \<Rightarrow> int \<Rightarrow> int" where
  "Mapper4_chrAt m c i = (to_int (ta_get (m4_banks m) i) * 0x400) AND (int (length (chr c)) - 1)"

definition Mapper4_chrRead :: "mapper4 \<Rightarrow> cartridge \<Rightarrow> int \<Rightarrow> jsval" where
  "Mapper4_chrRead m c addr =
     (if m4_chrMode m \<noteq> 0 then
        (if addr < 0x0800 then ta_get (chr c) (Mapper4_chrAt m c 2 + addr)
         else if addr < 0x1000 then ta_get (chr c) (Mapper4_chrAt m c 3 + (addr - 0x0800))
         else if addr < 0x1400 then ta_get (chr c) (Mapper4_chrAt m c 4 + (addr - 0x1000))
         else if addr < 0x1800 then ta_get (chr c) (Mapper4_chrAt m c 5 + (addr - 0x1400))
         else if addr < 0x1C00 then ta_get (chr c) (Mapper4_chrAt m c 0 + (addr - 0x1800))
         else ta_get (chr c) (Mapper4_chrAt m c 1 + (addr - 0x1C00)))
      else
        (if addr < 0x0800 then ta_get (chr c) (Mapper4_chrAt m c 0 + addr)
         else if addr < 0x1000 then ta_get (chr c) (Mapper4_chrAt m c 1 + (addr - 0x0800))
         else if addr < 0x1400 then ta_get (chr c) (Mapper4_chrAt m c 2 + (addr - 0x1000))
         else if addr < 0x1800 then ta_get (chr c) (Mapper4_chrAt m c 3 + (addr - 0x1400))
         else if addr < 0x1C00 then ta_get (chr c) (Mapper4_chrAt m c 4 + (addr - 0x1800))
         else ta_get (chr c) (Mapper4_chrAt m c 5 + (addr - 0x1C00))))"

definition chrRead :: "cartridge \<Rightarrow> int \<Rightarrow> jsval" where
  "chrRead c addr =
     (case mapperInstance c of
        Mapper0 \<Rightarrow> Mapper_chrRead c addr
      | Mapper1 m \<Rightarrow> Mapper1_chrRead m c addr
      | Mapper2 b \<Rightarrow> Mapper_chrRead c addr
      | Mapper3 b \<Rightarrow> ta_get (chr c) (b * 0x2000 + addr)
      | Mapper4 m \<Rightarrow> Mapper4_chrRead m c addr)"

definition chrWrite :: "cartridge \<Rightarrow> int \<Rightarrow> int \<Rightarrow> cartridge" where
  "chrWrite c addr val =
     (case mapperInstance c of
        Mapper1 m \<Rightarrow> Mapper1_chrWrite m c addr val
      | _ \<Rightarrow> Mapper_chrWrite c addr val)"

section \<open>The PPU (ppu.js)\<close>

text \<open>
  The fields of the \<open>PPU\<close> object. The registers \<open>v\<close>, \<open>t\<close>, \<open>x\<close>, \<open>w\<close> and \<open>mask\<close>
  carry a prefix. \<open>mapper_connected\<close> says that \<open>this.mapper\<close> is set (by \<open>connectCart\<close>);
  the cartridge it points to is shared with the bus and is passed to each function that
  reaches it. \<open>bgLatch_pal\<close> is \<open>bgLatch.pal\<close>. The framebuffer \<open>fb\<close> and the colour table
  \<open>paletteRGB\<close> are as \<open>attachCanvas\<close> leaves them; the canvas itself, and the fields
  that no method reads (\<open>nextTileFineX\<close>, \<open>scanlineSprites\<close>), are left out.

  The arrays of the PPU are allocated once with a constant length and every index into them
  is masked or bounded by a loop below that length; where their elements are used as numbers
  they are read with \<open>!\<close>.
\<close>

record ppu =
  ppu_v :: int
  ppu_t :: int
  ppu_x :: int
  ppu_w :: int
  ctrl :: int
  ppu_mask :: int
  status :: int
  oam :: "int list"
  oamaddr :: int
  secOAM :: "int list"
  spriteCount :: int
  spriteZeroInLine :: bool
  vram :: "int list"
  palette :: "int list"
  mapper_connected :: bool
  mirror :: mirroring
  fb :: "int list"
  paletteRGB :: "int list"
  cycle :: int
  scanline :: int
  frame :: int
  nmi :: bool
  nameTableByte :: jsval
  attrTableByte :: jsval
  patternLo :: jsval
  patternHi :: jsval
  bgShiftLo :: int
  bgShiftHi :: int
  attrShiftLo :: int
  attrShiftHi :: int
  bgLatch_pal :: int
  spriteShiftsLo :: "int list"
  spriteShiftsHi :: "int list"
  spriteX :: "int list"
  spriteAttr :: "int list"
  spriteY :: "int list"
  spriteIndices :: "int list"
  buffered :: jsval

text \<open>A shift by a computed count: JavaScript takes the count modulo 32.\<close>

definition js_shr :: "int \<Rightarrow> int \<Rightarrow> int" where
  "js_shr a n = drop_bit (nat (n AND 31)) a"

text \<open>\<open>ntIndex\<close>: the nametable mirroring.\<close>

definition ntIndex :: "ppu \<Rightarrow> int \<Rightarrow> int" where
  "ntIndex p addr =
     (let a = addr AND 0x0FFF;
          nt = drop_bit 10 a AND 3;
          off = a AND 0x03FF
      in if mirror p = Vertical then ((nt AND 1) * 0x400) + off
         else if mirror p = Horizontal then ((drop_bit 1 nt AND 1) * 0x400) + off
         else off)"

text \<open>\<open>ppuRead\<close> and \<open>ppuWrite\<close>: the PPU's own address space.\<close>

definition palette_index :: "int \<Rightarrow> int" where
  "palette_index addr =
     (let a = 0x3F00 + (addr AND 0x1F);
          idx = a AND 0x1F
      in if idx AND 0x13 = 0x10 then idx AND NOT 0x10 else idx)"

definition ppuRead :: "cartridge \<Rightarrow> ppu \<Rightarrow> int \<Rightarrow> jsval" where
  "ppuRead c p addr0 =
     (let addr = addr0 AND 0x3FFF
      in if addr < 0x2000 then
           (if mapper_connected p then chrRead c (addr AND 0x1FFF) else Num 0)
         else if addr < 0x3F00 then ta_get (vram p) (ntIndex p addr AND 0x7FF)
         else Num (to_int (ta_get (palette p) (palette_index addr)) AND 0x3F))"

definition ppuWrite :: "cartridge \<Rightarrow> ppu \<Rightarrow> int \<Rightarrow> int \<Rightarrow> cartridge \<times> ppu" where
  "ppuWrite c p addr0 val0 =
     (let addr = addr0 AND 0x3FFF;
          val = val0 AND 0xFF
      in if addr < 0x2000 then
           (if mapper_connected p then (chrWrite c (addr AND 0x1FFF) val, p) else (c, p))
         else if addr < 0x3F00 then
           (c, p\<lparr>vram := ta_set (vram p) (ntIndex p addr AND 0x7FF) val\<rparr>)
         else (c, p\<lparr>palette := ta_set (palette p) (palette_index addr) (val AND 0x3F)\<rparr>))"

text \<open>The step of \<open>v\<close> after an access through \<open>$2007\<close>.\<close>

definition v_increment :: "ppu \<Rightarrow> int" where
  "v_increment p = (ppu_v p + (if ctrl p AND 0x04 \<noteq> 0 then 32 else 1)) AND 0x7FFF"

text \<open>\<open>read\<close>: the registers the CPU can read. The result is the value and the new PPU.\<close>

definition PPU_read :: "cartridge \<Rightarrow> ppu \<Rightarrow> int \<Rightarrow> jsval \<times> ppu" where
  "PPU_read c p addr =
     (let r = addr AND 7
      in if r = 2 then
           (Num ((status p AND 0xE0) OR (to_int (buffered p) AND 0x1F)),
            p\<lparr>status := status p AND NOT 0x80, ppu_w := 0\<rparr>)
         else if r = 4 then (ta_get (oam p) (oamaddr p AND 0xFF), p)
         else if r = 7 then
           (let addr14 = ppu_v p AND 0x3FFF;
                val = ppuRead c p addr14
            in if addr14 \<ge> 0x3F00 then
                 (val, p\<lparr>buffered := ppuRead c p (addr14 - 0x1000), ppu_v := v_increment p\<rparr>)
               else
                 (buffered p, p\<lparr>buffered := val, ppu_v := v_increment p\<rparr>))
         else (Num 0, p))"

text \<open>\<open>write\<close>: the registers the CPU can write.\<close>

definition PPU_write :: "cartridge \<Rightarrow> ppu \<Rightarrow> int \<Rightarrow> int \<Rightarrow> cartridge \<times> ppu" where
  "PPU_write c p addr val0 =
     (let val = val0 AND 0xFF;
          r = addr AND 7
      in if r = 0 then
           (c, p\<lparr>ctrl := val, ppu_t := (ppu_t p AND 0xF3FF) OR push_bit 10 (val AND 0x03)\<rparr>)
         else if r = 1 then (c, p\<lparr>ppu_mask := val\<rparr>)
         else if r = 3 then (c, p\<lparr>oamaddr := val AND 0xFF\<rparr>)
         else if r = 4 then
           (c, p\<lparr>oam := ta_set (oam p) (oamaddr p AND 0xFF) val,
                 oamaddr := (oamaddr p + 1) AND 0xFF\<rparr>)
         else if r = 5 then
           (if ppu_w p = 0 then
              (c, p\<lparr>ppu_x := val AND 0x07,
                    ppu_t := (ppu_t p AND 0x7FE0) OR drop_bit 3 (val AND 0xF8),
                    ppu_w := 1\<rparr>)
            else
              (c, p\<lparr>ppu_t := (ppu_t p AND 0x0C1F) OR push_bit 12 (val AND 0x07)
                              OR push_bit 2 (val AND 0xF8),
                    ppu_w := 0\<rparr>))
         else if r = 6 then
           (if ppu_w p = 0 then
              (c, p\<lparr>ppu_t := (ppu_t p AND 0x00FF) OR push_bit 8 (val AND 0x3F), ppu_w := 1\<rparr>)
            else
              (let t' = (ppu_t p AND 0x7F00) OR val
               in (c, p\<lparr>ppu_t := t', ppu_v := t', ppu_w := 0\<rparr>)))
         else if r = 7 then
           (let (c', p') = ppuWrite c p (ppu_v p AND 0x3FFF) val
            in (c', p'\<lparr>ppu_v := v_increment p'\<rparr>))
         else (c, p))"

text \<open>
  \<open>doDMA\<close>: the loop \<open>for (i = 0; i < 256; i++) oam[(oamaddr + i) & 0xFF] = buf[i]\<close>.
  \<open>doDMA_index\<close> is the index of its \<open>i\<close>-th store.
\<close>

definition doDMA_index :: "ppu \<Rightarrow> nat \<Rightarrow> int" where
  "doDMA_index p i = (oamaddr p + int i) AND 0xFF"

definition doDMA_store :: "ppu \<Rightarrow> int list \<Rightarrow> int list \<Rightarrow> nat \<Rightarrow> int list" where
  "doDMA_store p buf arr i = ta_set arr (doDMA_index p i) (to_int (ta_get buf (int i)))"

definition doDMA :: "ppu \<Rightarrow> int list \<Rightarrow> ppu" where
  "doDMA p buf = p\<lparr>oam := foldl (doDMA_store p buf) (oam p) [0..<256]\<rparr>"

text \<open>The scroll helpers.\<close>

definition incCoarseX :: "ppu \<Rightarrow> ppu" where
  "incCoarseX p =
     (if ppu_v p AND 0x001F = 31 then p\<lparr>ppu_v := (ppu_v p AND NOT 0x001F) XOR 0x0400\<rparr>
      else p\<lparr>ppu_v := ppu_v p + 1\<rparr>)"

definition incY :: "ppu \<Rightarrow> ppu" where
  "incY p =
     (if ppu_v p AND 0x7000 \<noteq> 0x7000 then p\<lparr>ppu_v := ppu_v p + 0x1000\<rparr>
      else
        (let v1 = ppu_v p AND NOT 0x7000;
             y = drop_bit 5 (v1 AND 0x03E0);
             v2 = (if y = 29 then v1 XOR 0x0800 else v1);
             y' = (if y = 29 then 0 else if y = 31 then 0 else y + 1)
         in p\<lparr>ppu_v := (v2 AND NOT 0x03E0) OR push_bit 5 y'\<rparr>))"

definition copyX :: "ppu \<Rightarrow> ppu" where
  "copyX p = p\<lparr>ppu_v := (ppu_v p AND NOT 0x041F) OR (ppu_t p AND 0x041F)\<rparr>"

definition copyY :: "ppu \<Rightarrow> ppu" where
  "copyY p = p\<lparr>ppu_v := (ppu_v p AND NOT 0x7BE0) OR (ppu_t p AND 0x7BE0)\<rparr>"

text \<open>The background fetches.\<close>

definition fetchName :: "cartridge \<Rightarrow> ppu \<Rightarrow> ppu" where
  "fetchName c p = p\<lparr>nameTableByte := ppuRead c p (0x2000 OR (ppu_v p AND 0x0FFF))\<rparr>"

definition fetchAttr :: "cartridge \<Rightarrow> ppu \<Rightarrow> ppu" where
  "fetchAttr c p =
     (let at = 0x23C0 OR (ppu_v p AND 0x0C00) OR (drop_bit 4 (ppu_v p) AND 0x38)
                 OR (drop_bit 2 (ppu_v p) AND 0x07);
          a = ppuRead c p at;
          shift = (drop_bit 4 (ppu_v p) AND 4) OR (ppu_v p AND 2)
      in p\<lparr>attrTableByte := a, bgLatch_pal := push_bit 2 (js_shr (to_int a) shift AND 3)\<rparr>)"

definition bg_pattern_addr :: "ppu \<Rightarrow> int" where
  "bg_pattern_addr p =
     (let fineY = drop_bit 12 (ppu_v p) AND 7;
          table = (if ctrl p AND 0x10 \<noteq> 0 then 1 else 0);
          tile = to_int (nameTableByte p) AND 0xFF
      in (table * 0x1000) + (tile * 16) + fineY)"

definition fetchPatternLow :: "cartridge \<Rightarrow> ppu \<Rightarrow> ppu" where
  "fetchPatternLow c p = p\<lparr>patternLo := ppuRead c p (bg_pattern_addr p)\<rparr>"

definition fetchPatternHigh :: "cartridge \<Rightarrow> ppu \<Rightarrow> ppu" where
  "fetchPatternHigh c p = p\<lparr>patternHi := ppuRead c p (bg_pattern_addr p + 8)\<rparr>"

definition loadBGShiftRegisters :: "ppu \<Rightarrow> ppu" where
  "loadBGShiftRegisters p =
     (let pal = bgLatch_pal p AND 0xFF;
          lo = (if pal AND 0x01 \<noteq> 0 then 0xFF else 0x00);
          hi = (if pal AND 0x02 \<noteq> 0 then 0xFF else 0x00)
      in p\<lparr>bgShiftLo := ((bgShiftLo p AND 0xFF) OR push_bit 8 (to_int (patternLo p))) AND 0xFFFF,
            bgShiftHi := ((bgShiftHi p AND 0xFF) OR push_bit 8 (to_int (patternHi p))) AND 0xFFFF,
            attrShiftLo := ((attrShiftLo p AND 0xFF) OR push_bit 8 lo) AND 0xFFFF,
            attrShiftHi := ((attrShiftHi p AND 0xFF) OR push_bit 8 hi) AND 0xFFFF\<rparr>)"

text \<open>
  \<open>evaluateSprites\<close>. Its scan of the 64 sprites stops at the ninth sprite in range
  (\<open>break\<close>); the recursion runs over the sprite numbers still to be looked at.
\<close>

fun evaluate_scan :: "int \<Rightarrow> nat list \<Rightarrow> ppu \<Rightarrow> ppu" where
  "evaluate_scan y [] p = p"
| "evaluate_scan y (i # rest) p =
     (let ofs = i * 4;
          sy = oam p ! ofs;
          tile = oam p ! (ofs + 1);
          attr = oam p ! (ofs + 2);
          sx = oam p ! (ofs + 3);
          h = (if ctrl p AND 0x20 \<noteq> 0 then 16 else 8);
          row = y - sy
      in if row \<ge> 0 \<and> row < h then
           (let p1 = (if spriteCount p < 8 then
                        (let dest = spriteCount p * 4;
                             s0 = ta_set (secOAM p) (dest + 0) sy;
                             s1 = ta_set s0 (dest + 1) tile;
                             s2 = ta_set s1 (dest + 2) attr;
                             s3 = ta_set s2 (dest + 3) sx
                         in p\<lparr>secOAM := s3,
                               spriteZeroInLine := (if i = 0 then True else spriteZeroInLine p)\<rparr>)
                      else p);
                p2 = p1\<lparr>spriteCount := spriteCount p1 + 1\<rparr>
            in if spriteCount p2 = 9 then p2\<lparr>status := status p2 OR 0x20\<rparr>
               else evaluate_scan y rest p2)
         else evaluate_scan y rest p)"

definition evaluate_slot :: "ppu \<Rightarrow> nat \<Rightarrow> ppu" where
  "evaluate_slot p i =
     (let base = i * 4;
          sy = secOAM p ! base
      in if sy = 0xFF then
           p\<lparr>spriteY := ta_set (spriteY p) (int i) 0xFF,
             spriteX := ta_set (spriteX p) (int i) 0x00,
             spriteAttr := ta_set (spriteAttr p) (int i) 0,
             spriteShiftsLo := ta_set (spriteShiftsLo p) (int i) 0,
             spriteShiftsHi := ta_set (spriteShiftsHi p) (int i) 0,
             spriteIndices := ta_set (spriteIndices p) (int i) 0xFF\<rparr>
         else
           (let tile = secOAM p ! (base + 1);
                attr = secOAM p ! (base + 2);
                sx = secOAM p ! (base + 3)
            in p\<lparr>spriteY := ta_set (spriteY p) (int i) sy,
                  spriteAttr := ta_set (spriteAttr p) (int i) attr,
                  spriteX := ta_set (spriteX p) (int i) sx,
                  spriteIndices := ta_set (spriteIndices p) (int i) tile,
                  spriteShiftsLo := ta_set (spriteShiftsLo p) (int i) 0,
                  spriteShiftsHi := ta_set (spriteShiftsHi p) (int i) 0\<rparr>))"

definition evaluateSprites :: "ppu \<Rightarrow> ppu" where
  "evaluateSprites p =
     (let y = scanline p;
          p0 = p\<lparr>spriteCount := 0, spriteZeroInLine := False,
                 secOAM := foldl (\<lambda>s i. ta_set s (int i) 0xFF) (secOAM p) [0..<32]\<rparr>;
          p1 = evaluate_scan y [0..<64] p0
      in foldl evaluate_slot p1 [0..<8])"

text \<open>\<open>reverseByte\<close> and \<open>fetchSpritePatterns\<close>.\<close>

definition reverseByte :: "int \<Rightarrow> int" where
  "reverseByte b =
     (let b1 = drop_bit 4 (b AND 0xF0) OR push_bit 4 (b AND 0x0F);
          b2 = drop_bit 2 (b1 AND 0xCC) OR push_bit 2 (b1 AND 0x33);
          b3 = drop_bit 1 (b2 AND 0xAA) OR push_bit 1 (b2 AND 0x55)
      in b3 AND 0xFF)"

definition fetch_slot :: "cartridge \<Rightarrow> ppu \<Rightarrow> nat \<Rightarrow> ppu" where
  "fetch_slot c p i =
     (let spriteHeight = (if ctrl p AND 0x20 \<noteq> 0 then 16 else 8 :: int)
      in if spriteY p ! i = 0xFF then
           p\<lparr>spriteShiftsLo := ta_set (spriteShiftsLo p) (int i) 0,
             spriteShiftsHi := ta_set (spriteShiftsHi p) (int i) 0\<rparr>
         else
           (let row = scanline p - spriteY p ! i;
                tile0 = spriteIndices p ! i;
                table = (if spriteHeight = 16 then tile0 AND 1
                         else if ctrl p AND 0x08 \<noteq> 0 then 1 else 0);
                tile = (if spriteHeight = 16
                        then (if row \<ge> 8 then (tile0 AND 0xFE) + 1 else tile0 AND 0xFE)
                        else tile0);
                fineY = (if spriteHeight = 16 \<and> row \<ge> 8 then row - 8 else row AND 0x07);
                flipV = drop_bit 7 (spriteAttr p ! i) AND 1;
                flipH = drop_bit 6 (spriteAttr p ! i) AND 1;
                fy = (if flipV \<noteq> 0 then 7 - fineY else fineY);
                addrLo = (table * 0x1000) + (tile * 16) + fy;
                addrHi = addrLo + 8;
                lo = to_int (ppuRead c p addrLo);
                hi = to_int (ppuRead c p addrHi);
                lo' = (if flipH \<noteq> 0 then reverseByte lo else lo);
                hi' = (if flipH \<noteq> 0 then reverseByte hi else hi)
            in p\<lparr>spriteShiftsLo := ta_set (spriteShiftsLo p) (int i) lo',
                  spriteShiftsHi := ta_set (spriteShiftsHi p) (int i) hi'\<rparr>))"

definition fetchSpritePatterns :: "cartridge \<Rightarrow> ppu \<Rightarrow> ppu" where
  "fetchSpritePatterns c p = foldl (fetch_slot c) p [0..<8]"

text \<open>
  \<open>renderPixel\<close>, in the order of the source: the background pixel, the scan of the eight
  sprite slots for the first opaque sprite pixel (\<open>break\<close> at the first hit), the sprite-0
  test, the colour, the store into the framebuffer.
\<close>

definition bg_pixel :: "ppu \<Rightarrow> int \<times> int" where
  "bg_pixel p =
     (if ppu_mask p AND 0x08 \<noteq> 0 then
        (let planeLo = js_shr (bgShiftLo p) (15 - ppu_x p) AND 1;
             planeHi = js_shr (bgShiftHi p) (15 - ppu_x p) AND 1;
             palLo = js_shr (attrShiftLo p) (15 - ppu_x p) AND 1;
             palHi = js_shr (attrShiftHi p) (15 - ppu_x p) AND 1
         in (push_bit 1 planeHi OR planeLo, push_bit 2 (push_bit 1 palHi OR palLo)))
      else (0, 0))"

definition sprite_px :: "ppu \<Rightarrow> nat \<Rightarrow> int" where
  "sprite_px p s =
     (let lo = drop_bit 7 (spriteShiftsLo p ! s) AND 1;
          hi = drop_bit 7 (spriteShiftsHi p ! s) AND 1
      in push_bit 1 hi OR lo)"

fun sprite_scan :: "ppu \<Rightarrow> nat list \<Rightarrow> nat option" where
  "sprite_scan p [] = None"
| "sprite_scan p (s # rest) =
     (if spriteY p ! s = 0xFF then sprite_scan p rest
      else if spriteX p ! s = 0 \<and> sprite_px p s \<noteq> 0 then Some s
      else sprite_scan p rest)"

text \<open>The slot of the contributing sprite, if sprites are shown and one is opaque here.\<close>

definition sprite_hit_slot :: "ppu \<Rightarrow> nat option" where
  "sprite_hit_slot p = (if ppu_mask p AND 0x10 \<noteq> 0 then sprite_scan p [0..<8] else None)"

definition sprite_pixel :: "ppu \<Rightarrow> int" where
  "sprite_pixel p = (case sprite_hit_slot p of None \<Rightarrow> 0 | Some s \<Rightarrow> sprite_px p s)"

definition spriteIsZero :: "ppu \<Rightarrow> bool" where
  "spriteIsZero p =
     (case sprite_hit_slot p of None \<Rightarrow> False | Some s \<Rightarrow> spriteZeroInLine p \<and> s = 0)"

text \<open>A \<open>Uint32Array\<close> store, and \<open>paletteRGB[i] || 0xFF000000\<close>.\<close>

definition u32_set :: "int list \<Rightarrow> int \<Rightarrow> int \<Rightarrow> int list" where
  "u32_set xs i b = (if 0 \<le> i \<and> i < int (length xs) then xs[nat i := b mod 2 ^ 32] else xs)"

definition rgb_of :: "ppu \<Rightarrow> int \<Rightarrow> int" where
  "rgb_of p i =
     (case ta_get (paletteRGB p) i of
        Num n \<Rightarrow> (if n = 0 then 0xFF000000 else n)
      | _ \<Rightarrow> 0xFF000000)"

definition renderPixel :: "ppu \<Rightarrow> int \<Rightarrow> int \<Rightarrow> ppu" where
  "renderPixel p x y =
     (let bgPixel = fst (bg_pixel p);
          bgPalette = snd (bg_pixel p);
          spritePixel = sprite_pixel p;
          attr = (case sprite_hit_slot p of None \<Rightarrow> 0 | Some s \<Rightarrow> spriteAttr p ! s);
          spritePal = (case sprite_hit_slot p of None \<Rightarrow> 0
                       | Some s \<Rightarrow> push_bit 2 ((attr AND 3) + 4));
          spritePriority = (case sprite_hit_slot p of None \<Rightarrow> 0
                            | Some s \<Rightarrow> drop_bit 5 attr AND 1);
          p1 = (if spritePixel \<noteq> 0 \<and> bgPixel \<noteq> 0 \<and> spriteIsZero p \<and> x < 255
                then p\<lparr>status := status p OR 0x40\<rparr> else p);
          colorIndex =
            (if spritePixel \<noteq> 0 \<and> (spritePriority = 0 \<or> bgPixel = 0)
             then 0x10 OR spritePal OR (spritePixel AND 3)
             else if bgPixel \<noteq> 0 then 0x10 OR bgPalette OR (bgPixel AND 3)
             else palette p ! 0 AND 0x3F);
          rgbIndex = colorIndex AND 0x3F
      in p1\<lparr>fb := u32_set (fb p1) (y * 256 + x) (rgb_of p1 rgbIndex)\<rparr>)"

text \<open>\<open>stepShifters\<close>.\<close>

definition shift_slot :: "ppu \<Rightarrow> nat \<Rightarrow> ppu" where
  "shift_slot p i =
     (if spriteX p ! i = 0 then
        p\<lparr>spriteShiftsLo := ta_set (spriteShiftsLo p) (int i)
                               (push_bit 1 (spriteShiftsLo p ! i) AND 0xFF),
          spriteShiftsHi := ta_set (spriteShiftsHi p) (int i)
                               (push_bit 1 (spriteShiftsHi p ! i) AND 0xFF)\<rparr>
      else if spriteX p ! i > 0 then
        p\<lparr>spriteX := ta_set (spriteX p) (int i) (spriteX p ! i - 1)\<rparr>
      else p)"

definition stepShifters :: "ppu \<Rightarrow> ppu" where
  "stepShifters p =
     (let p1 = (if ppu_mask p AND 0x08 \<noteq> 0 then
                  p\<lparr>bgShiftLo := push_bit 1 (bgShiftLo p) AND 0xFFFF,
                    bgShiftHi := push_bit 1 (bgShiftHi p) AND 0xFFFF,
                    attrShiftLo := push_bit 1 (attrShiftLo p) AND 0xFFFF,
                    attrShiftHi := push_bit 1 (attrShiftHi p) AND 0xFFFF\<rparr>
                else p)
      in if ppu_mask p1 AND 0x10 \<noteq> 0 then foldl shift_slot p1 [0..<8] else p1)"

text \<open>
  \<open>step\<close>: one dot. The parts follow the source from top to bottom; \<open>re\<close> is the constant
  \<open>renderingEnabled\<close>, computed once after the flags of the pre-render line are cleared.
  \<open>renderToCanvas\<close> only hands the framebuffer to the host and is left out.
\<close>

definition step_clear :: "ppu \<Rightarrow> ppu" where
  "step_clear p =
     (if scanline p = 261 \<and> cycle p = 1
      then p\<lparr>status := status p AND NOT (0x80 OR 0x40 OR 0x20), spriteZeroInLine := False\<rparr>
      else p)"

definition renderingEnabled :: "ppu \<Rightarrow> bool" where
  "renderingEnabled p = (ppu_mask p AND 0x18 \<noteq> 0)"

definition step_fetch :: "cartridge \<Rightarrow> ppu \<Rightarrow> ppu" where
  "step_fetch c p =
     (let cycleMod8 = cycle p AND 7
      in if cycleMod8 = 1 then fetchName c p
         else if cycleMod8 = 3 then fetchAttr c p
         else if cycleMod8 = 5 then fetchPatternLow c p
         else if cycleMod8 = 7 then fetchPatternHigh c p
         else if cycleMod8 = 0 then loadBGShiftRegisters p
         else p)"

definition step_dot :: "cartridge \<Rightarrow> bool \<Rightarrow> ppu \<Rightarrow> ppu" where
  "step_dot c re p =
     (let p1 = step_fetch c p;
          x = cycle p1 - 1;
          y = scanline p1;
          p2 = (if re then renderPixel p1 x y
                else p1\<lparr>fb := u32_set (fb p1) (y * 256 + x) (rgb_of p1 (palette p1 ! 0 AND 0x3F))\<rparr>);
          p3 = stepShifters p2
      in if cycle p3 AND 7 = 0 then incCoarseX p3 else p3)"

definition hide_empty_slot :: "ppu \<Rightarrow> nat \<Rightarrow> ppu" where
  "hide_empty_slot p i =
     (if spriteY p ! i = 0xFF then p\<lparr>spriteX := ta_set (spriteX p) (int i) 0xFF\<rparr> else p)"

definition step_sprites :: "cartridge \<Rightarrow> bool \<Rightarrow> ppu \<Rightarrow> ppu" where
  "step_sprites c re p =
     (let p1 = (if re then copyX p else p)
      in if re then foldl hide_empty_slot (fetchSpritePatterns c (evaluateSprites p1)) [0..<8]
         else p1)"

definition step_visible :: "cartridge \<Rightarrow> bool \<Rightarrow> ppu \<Rightarrow> ppu" where
  "step_visible c re p =
     (if scanline p \<ge> 0 \<and> scanline p \<le> 239 then
        (let p1 = (if cycle p \<ge> 1 \<and> cycle p \<le> 256 then step_dot c re p else p);
             p2 = (if cycle p1 = 257 then step_sprites c re p1 else p1)
         in if cycle p2 = 256 then (if re then incY p2 else p2) else p2)
      else p)"

definition step_prerender :: "bool \<Rightarrow> ppu \<Rightarrow> ppu" where
  "step_prerender re p =
     (if scanline p = 261 then
        (if cycle p \<ge> 280 \<and> cycle p \<le> 304 \<and> re then copyY p else p)
      else p)"

definition step_vblank :: "ppu \<Rightarrow> ppu" where
  "step_vblank p =
     (if scanline p = 241 \<and> cycle p = 1
      then (let p1 = p\<lparr>status := status p OR 0x80\<rparr>
            in if ctrl p1 AND 0x80 \<noteq> 0 then p1\<lparr>nmi := True\<rparr> else p1)
      else p)"

definition step_advance :: "ppu \<Rightarrow> ppu" where
  "step_advance p =
     (let p1 = p\<lparr>cycle := cycle p + 1\<rparr>
      in if cycle p1 > 340 then
           (let p2 = p1\<lparr>cycle := 0, scanline := scanline p1 + 1\<rparr>
            in if scanline p2 > 261 then p2\<lparr>scanline := 0, frame := frame p2 + 1\<rparr> else p2)
         else p1)"

definition PPU_step :: "cartridge \<Rightarrow> ppu \<Rightarrow> ppu" where
  "PPU_step c p =
     (let p1 = step_clear p;
          re = renderingEnabled p1
      in step_advance (step_vblank (step_prerender re (step_visible c re p1))))"

section \<open>The CPU state and the bus (cpu6502.js, memory.js)\<close>

text \<open>
  \<open>input.js\<close> and \<open>apu.js\<close> are not among the sources: a controller and the APU are
  objects with a state of their own and the methods that the bus calls on them. The APU may
  lack \<open>read\<close> or \<open>write\<close>; the bus tests for them.
\<close>

record 'c controller =
  ctl_state :: 'c
  ctl_read :: "'c \<Rightarrow> jsval \<times> 'c"
  ctl_write :: "'c \<Rightarrow> int \<Rightarrow> 'c"

record 'a apu_dev =
  apu_state :: 'a
  apu_read :: "('a \<Rightarrow> int \<Rightarrow> jsval \<times> 'a) option"
  apu_write :: "('a \<Rightarrow> int \<Rightarrow> int \<Rightarrow> 'a) option"

datatype addr_mode = IMP | IMM | ZP0 | ZPX | ZPY | ABS | ABX | ABY | IZX | IZY | IND | REL

text \<open>The registers of the second, complete \<open>CPU6502\<close> class of cpu6502.js.\<close>

record cpu6502 =
  reg_a :: jsval
  reg_x :: jsval
  reg_y :: jsval
  reg_sp :: jsval
  reg_p :: int
  reg_pc :: jsval
  cycles :: jsval
  stall :: int
  addrMode :: "addr_mode option"
  pageCross :: int

text \<open>
  The machine as \<open>createNESFromROMBytes\<close> wires it: the bus holds the CPU, the PPU, the
  APU, the two controllers, the cartridge and its own 2 KiB of RAM.
\<close>

record ('c, 'a) nes =
  cpu :: cpu6502
  ppu :: ppu
  apu :: "'a apu_dev"
  controller_0 :: "'c controller"
  controller_1 :: "'c controller"
  cart :: cartridge
  ram :: "int list"

definition controller_read :: "'c controller \<Rightarrow> jsval \<times> 'c controller" where
  "controller_read k = (let (r, st) = ctl_read k (ctl_state k) in (r, k\<lparr>ctl_state := st\<rparr>))"

definition controller_write :: "'c controller \<Rightarrow> int \<Rightarrow> 'c controller" where
  "controller_write k val = k\<lparr>ctl_state := ctl_write k (ctl_state k) val\<rparr>"

text \<open>
  \<open>Bus.cpuRead\<close>. The bus is given the \<open>Cartridge\<close> object, which has no \<open>prgRead\<close>:
  PRG reads go to \<open>Cartridge.read\<close>.
\<close>

definition cpuRead :: "('c, 'a) nes \<Rightarrow> int \<Rightarrow> jsval \<times> ('c, 'a) nes" where
  "cpuRead s addr0 =
     (let addr = addr0 AND 0xFFFF
      in if addr < 0x2000 then (ta_get (ram s) (addr AND 0x7FF), s)
         else if addr < 0x4000 then
           (let (r, p') = PPU_read (cart s) (ppu s) (0x2000 + (addr AND 7))
            in (r, s\<lparr>ppu := p'\<rparr>))
         else if addr = 0x4016 then
           (let (r, k) = controller_read (controller_0 s) in (r, s\<lparr>controller_0 := k\<rparr>))
         else if addr = 0x4017 then
           (let (r, k) = controller_read (controller_1 s) in (r, s\<lparr>controller_1 := k\<rparr>))
         else if addr = 0x4015 then
           (case apu_read (apu s) of
              Some f \<Rightarrow> (let (r, st) = f (apu_state (apu s)) 0x4015
                         in (r, s\<lparr>apu := (apu s)\<lparr>apu_state := st\<rparr>\<rparr>))
            | None \<Rightarrow> (Num 0, s))
         else if addr \<ge> 0x8000 then (cart_read (cart s) addr, s)
         else if addr \<ge> 0x6000 then (ta_get (sram (cart s)) (addr - 0x6000), s)
         else (Num 0, s))"

text \<open>
  The OAM DMA of \<open>Bus.cpuWrite\<close>: 256 reads through \<open>cpuRead\<close> into a fresh
  \<open>Uint8Array(256)\<close>, then \<open>doDMA\<close>. \<open>dma_reads page s n\<close> is the buffer and the
  machine after the first \<open>n\<close> reads.
\<close>

definition dma_fetch :: "int \<Rightarrow> int list \<times> ('c, 'a) nes \<Rightarrow> nat \<Rightarrow> int list \<times> ('c, 'a) nes" where
  "dma_fetch page bs i =
     (let (r, s') = cpuRead (snd bs) (page + int i)
      in (ta_set (fst bs) (int i) (to_int r), s'))"

definition dma_reads :: "int \<Rightarrow> ('c, 'a) nes \<Rightarrow> nat \<Rightarrow> int list \<times> ('c, 'a) nes" where
  "dma_reads page s n = foldl (dma_fetch page) (replicate 256 0, s) [0..<n]"

definition oam_dma :: "('c, 'a) nes \<Rightarrow> int \<Rightarrow> ('c, 'a) nes" where
  "oam_dma s val =
     (let page = push_bit 8 val;
          (buf, s') = dma_reads page s 256
      in s'\<lparr>ppu := doDMA (ppu s') buf\<rparr>)"

text \<open>
  \<open>Bus.cpuWrite\<close>. The \<open>Cartridge\<close> object has no \<open>prgWrite\<close>, so a write at
  \<open>$8000\<close> and above does nothing; its \<open>sram\<close> is always there.
\<close>

definition cpuWrite :: "('c, 'a) nes \<Rightarrow> int \<Rightarrow> int \<Rightarrow> ('c, 'a) nes" where
  "cpuWrite s addr0 val0 =
     (let addr = addr0 AND 0xFFFF;
          val = val0 AND 0xFF
      in if addr < 0x2000 then s\<lparr>ram := ta_set (ram s) (addr AND 0x7FF) val\<rparr>
         else if addr < 0x4000 then
           (let (c', p') = PPU_write (cart s) (ppu s) (0x2000 + (addr AND 7)) val
            in s\<lparr>ppu := p', cart := c'\<rparr>)
         else if addr = 0x4014 then oam_dma s val
         else if addr = 0x4016 then
           s\<lparr>controller_0 := controller_write (controller_0 s) val,
             controller_1 := controller_write (controller_1 s) val\<rparr>
         else if addr \<ge> 0x4000 \<and> addr \<le> 0x4017 then
           (case apu_write (apu s) of
              Some f \<Rightarrow> s\<lparr>apu := (apu s)\<lparr>apu_state := f (apu_state (apu s)) addr val\<rparr>\<rparr>
            | None \<Rightarrow> s)
         else if addr \<ge> 0x8000 then s
         else if addr \<ge> 0x6000 then
           s\<lparr>cart := (cart s)\<lparr>sram := ta_set (sram (cart s)) (addr - 0x6000) val\<rparr>\<rparr>
         else s)"

section \<open>The CPU (cpu6502.js, second class)\<close>

datatype (plugins only: code) instr =
    BRK | NOP | LDA | LDX | LDY | STA | STX | STY | TAX | TAY | TXA | TYA | TSX | TXS
  | PHA | PHP | PLA | PLP | AND_ins | ORA | EOR | ADC | SBC | CMP | CPX | CPY
  | INC | INX | INY | DEC | DEX | DEY | ASL | LSR | ROL | ROR | BIT | JMP | JSR | RTS | RTI
  | BCC | BCS | BEQ | BMI | BNE | BPL | BVC | BVS | CLC | SEC | CLI | SEI | CLV | CLD | SED

text \<open>An entry of the opcode table, as \<open>buildOpcodes\<close> makes it: \<open>{ mode, ins, cyc }\<close>.\<close>

record opentry =
  mode :: addr_mode
  ins :: instr
  cyc :: int

definition opcode_list :: "(int \<times> addr_mode \<times> instr \<times> int) list" where
  "opcode_list =
    [(0x00,IMP,BRK,7),(0xEA,IMP,NOP,2),
     (0xA9,IMM,LDA,2),(0xA5,ZP0,LDA,3),(0xB5,ZPX,LDA,4),(0xAD,ABS,LDA,4),(0xBD,ABX,LDA,4),
     (0xB9,ABY,LDA,4),(0xA1,IZX,LDA,6),(0xB1,IZY,LDA,5),
     (0xA2,IMM,LDX,2),(0xA6,ZP0,LDX,3),(0xB6,ZPY,LDX,4),(0xAE,ABS,LDX,4),(0xBE,ABY,LDX,4),
     (0xA0,IMM,LDY,2),(0xA4,ZP0,LDY,3),(0xB4,ZPX,LDY,4),(0xAC,ABS,LDY,4),(0xBC,ABX,LDY,4),
     (0x85,ZP0,STA,3),(0x95,ZPX,STA,4),(0x8D,ABS,STA,4),(0x9D,ABX,STA,5),(0x99,ABY,STA,5),
     (0x81,IZX,STA,6),(0x91,IZY,STA,6),
     (0x86,ZP0,STX,3),(0x96,ZPY,STX,4),(0x8E,ABS,STX,4),
     (0x84,ZP0,STY,3),(0x94,ZPX,STY,4),(0x8C,ABS,STY,4),
     (0xAA,IMP,TAX,2),(0xA8,IMP,TAY,2),(0x8A,IMP,TXA,2),(0x98,IMP,TYA,2),
     (0xBA,IMP,TSX,2),(0x9A,IMP,TXS,2),(0x48,IMP,PHA,3),(0x08,IMP,PHP,3),(0x68,IMP,PLA,4),
     (0x28,IMP,PLP,4),
     (0x29,IMM,AND_ins,2),(0x25,ZP0,AND_ins,3),(0x35,ZPX,AND_ins,4),(0x2D,ABS,AND_ins,4),(0x3D,ABX,AND_ins,4),
     (0x39,ABY,AND_ins,4),(0x21,IZX,AND_ins,6),(0x31,IZY,AND_ins,5),
     (0x09,IMM,ORA,2),(0x05,ZP0,ORA,3),(0x15,ZPX,ORA,4),(0x0D,ABS,ORA,4),(0x1D,ABX,ORA,4),
     (0x19,ABY,ORA,4),(0x01,IZX,ORA,6),(0x11,IZY,ORA,5),
     (0x49,IMM,EOR,2),(0x45,ZP0,EOR,3),(0x55,ZPX,EOR,4),(0x4D,ABS,EOR,4),(0x5D,ABX,EOR,4),
     (0x59,ABY,EOR,4),(0x41,IZX,EOR,6),(0x51,IZY,EOR,5),
     (0x69,IMM,ADC,2),(0x65,ZP0,ADC,3),(0x75,ZPX,ADC,4),(0x6D,ABS,ADC,4),(0x7D,ABX,ADC,4),
     (0x79,ABY,ADC,4),(0x61,IZX,ADC,6),(0x71,IZY,ADC,5),
     (0xE9,IMM,SBC,2),(0xE5,ZP0,SBC,3),(0xF5,ZPX,SBC,4),(0xED,ABS,SBC,4),(0xFD,ABX,SBC,4),
     (0xF9,ABY,SBC,4),(0xE1,IZX,SBC,6),(0xF1,IZY,SBC,5),
     (0xC9,IMM,CMP,2),(0xC5,ZP0,CMP,3),(0xD5,ZPX,CMP,4),(0xCD,ABS,CMP,4),(0xDD,ABX,CMP,4),
     (0xD9,ABY,CMP,4),(0xC1,IZX,CMP,6),(0xD1,IZY,CMP,5),
     (0xE0,IMM,CPX,2),(0xE4,ZP0,CPX,3),(0xEC,ABS,CPX,4),
     (0xC0,IMM,CPY,2),(0xC4,ZP0,CPY,3),(0xCC,ABS,CPY,4),
     (0xE6,ZP0,INC,5),(0xF6,ZPX,INC,6),(0xEE,ABS,INC,6),(0xFE,ABX,INC,7),
     (0xC6,ZP0,DEC,5),(0xD6,ZPX,DEC,6),(0xCE,ABS,DEC,6),(0xDE,ABX,DEC,7),
     (0xE8,IMP,INX,2),(0xC8,IMP,INY,2),(0xCA,IMP,DEX,2),(0x88,IMP,DEY,2),
     (0x0A,IMP,ASL,2),(0x06,ZP0,ASL,5),(0x16,ZPX,ASL,6),(0x0E,ABS,ASL,6),(0x1E,ABX,ASL,7),
     (0x4A,IMP,LSR,2),(0x46,ZP0,LSR,5),(0x56,ZPX,LSR,6),(0x4E,ABS,LSR,6),(0x5E,ABX,LSR,7),
     (0x2A,IMP,ROL,2),(0x26,ZP0,ROL,5),(0x36,ZPX,ROL,6),(0x2E,ABS,ROL,6),(0x3E,ABX,ROL,7),
     (0x6A,IMP,ROR,2),(0x66,ZP0,ROR,5),(0x76,ZPX,ROR,6),(0x6E,ABS,ROR,6),(0x7E,ABX,ROR,7),
     (0x24,ZP0,BIT,3),(0x2C,ABS,BIT,4),
     (0x4C,ABS,JMP,3),(0x6C,IND,JMP,5),
     (0x20,ABS,JSR,6),(0x60,IMP,RTS,6),(0x40,IMP,RTI,6),
     (0x90,REL,BCC,2),(0xB0,REL,BCS,2),(0xF0,REL,BEQ,2),(0x30,REL,BMI,2),(0xD0,REL,BNE,2),
     (0x10,REL,BPL,2),(0x50,REL,BVC,2),(0x70,REL,BVS,2),
     (0x18,IMP,CLC,2),(0x38,IMP,SEC,2),(0x58,IMP,CLI,2),(0x78,IMP,SEI,2),(0xB8,IMP,CLV,2),
     (0xD8,IMP,CLD,2),(0xF8,IMP,SED,2)]"

text \<open>
  \<open>this.OPCODES[op]\<close>: the table is an array of 256 slots filled from the list, a later
  row of the list overwriting an earlier one for the same opcode (there is none). A byte
  without a row, and a non-number, have no entry.
\<close>

definition OPCODES :: "jsval \<Rightarrow> opentry option" where
  "OPCODES op =
     (case op of
        Num n \<Rightarrow>
          (case map_of (rev opcode_list) n of
             Some (m, i, k) \<Rightarrow> Some \<lparr>mode = m, ins = i, cyc = k\<rparr>
           | None \<Rightarrow> None)
      | _ \<Rightarrow> None)"

text \<open>\<open>read\<close>, \<open>write\<close>, \<open>push\<close>, \<open>pop\<close> and the flag helpers of the CPU.\<close>

definition CPU_read :: "('c, 'a) nes \<Rightarrow> jsval \<Rightarrow> jsval \<times> ('c, 'a) nes" where
  "CPU_read s addr = cpuRead s (to_int addr AND 0xFFFF)"

definition CPU_write :: "('c, 'a) nes \<Rightarrow> jsval \<Rightarrow> jsval \<Rightarrow> ('c, 'a) nes" where
  "CPU_write s addr val = cpuWrite s (to_int addr AND 0xFFFF) (to_int val AND 0xFF)"

definition upd_cpu :: "(cpu6502 \<Rightarrow> cpu6502) \<Rightarrow> ('c, 'a) nes \<Rightarrow> ('c, 'a) nes" where
  "upd_cpu f s = s\<lparr>cpu := f (cpu s)\<rparr>"

definition push :: "('c, 'a) nes \<Rightarrow> jsval \<Rightarrow> ('c, 'a) nes" where
  "push s val =
     (let s1 = CPU_write s (js_add (Num 0x100) (reg_sp (cpu s))) (Num (to_int val AND 0xFF))
      in upd_cpu (\<lambda>c. c\<lparr>reg_sp := Num (to_int (js_sub (reg_sp c) (Num 1)) AND 0xFF)\<rparr>) s1)"

definition pop :: "('c, 'a) nes \<Rightarrow> jsval \<times> ('c, 'a) nes" where
  "pop s =
     (let s1 = upd_cpu (\<lambda>c. c\<lparr>reg_sp := Num (to_int (js_add (reg_sp c) (Num 1)) AND 0xFF)\<rparr>) s
      in CPU_read s1 (js_add (Num 0x100) (reg_sp (cpu s1))))"

definition getFlag :: "cpu6502 \<Rightarrow> nat \<Rightarrow> int" where
  "getFlag c b = drop_bit b (reg_p c) AND 1"

definition setFlag :: "nat \<Rightarrow> bool \<Rightarrow> cpu6502 \<Rightarrow> cpu6502" where
  "setFlag b val c =
     (if val then c\<lparr>reg_p := reg_p c OR push_bit b 1\<rparr>
      else c\<lparr>reg_p := reg_p c AND NOT (push_bit b 1)\<rparr>)"

definition setZN :: "jsval \<Rightarrow> cpu6502 \<Rightarrow> cpu6502" where
  "setZN val c = setFlag 7 (to_int val AND 0x80 \<noteq> 0) (setFlag 1 (to_int val AND 0xFF = 0) c)"

text \<open>\<open>reset\<close>, \<open>nmi\<close> and \<open>irq\<close>.\<close>

definition read_vector :: "('c, 'a) nes \<Rightarrow> int \<Rightarrow> ('c, 'a) nes" where
  "read_vector s a =
     (let (lo, s1) = CPU_read s (Num a);
          (hi, s2) = CPU_read s1 (Num (a + 1))
      in upd_cpu (\<lambda>c. c\<lparr>reg_pc := Num (to_int lo OR push_bit 8 (to_int hi))\<rparr>) s2)"

definition CPU_reset :: "('c, 'a) nes \<Rightarrow> ('c, 'a) nes" where
  "CPU_reset s =
     (let s1 = upd_cpu (\<lambda>c. c\<lparr>reg_a := Num 0, reg_x := Num 0, reg_y := Num 0,
                               reg_sp := Num 0xFD, reg_p := 0x24\<rparr>) s;
          s2 = read_vector s1 0xFFFC
      in upd_cpu (\<lambda>c. c\<lparr>cycles := Num 7, stall := 0\<rparr>) s2)"

definition push_pc :: "('c, 'a) nes \<Rightarrow> ('c, 'a) nes" where
  "push_pc s =
     (let s1 = push s (Num (drop_bit 8 (to_int (reg_pc (cpu s))) AND 0xFF))
      in push s1 (Num (to_int (reg_pc (cpu s1)) AND 0xFF)))"

definition interrupt :: "('c, 'a) nes \<Rightarrow> int \<Rightarrow> ('c, 'a) nes" where
  "interrupt s vec =
     (let s1 = push_pc s;
          s2 = upd_cpu (\<lambda>c. setFlag 2 True (setFlag 5 True (setFlag 4 False c))) s1;
          s3 = push s2 (Num (reg_p (cpu s2)));
          s4 = read_vector s3 vec
      in upd_cpu (\<lambda>c. c\<lparr>cycles := js_add (cycles c) (Num 7)\<rparr>) s4)"

definition CPU_nmi :: "('c, 'a) nes \<Rightarrow> ('c, 'a) nes" where
  "CPU_nmi s = interrupt s 0xFFFA"

definition CPU_irq :: "('c, 'a) nes \<Rightarrow> ('c, 'a) nes" where
  "CPU_irq s = (if getFlag (cpu s) 2 \<noteq> 0 then s else interrupt s 0xFFFE)"

text \<open>
  \<open>fetchAddr\<close> and its helpers. Each takes the machine and gives the address and the
  machine after the operand reads; \<open>fetch_pc\<close> is \<open>this.read(this.pc++)\<close>.
\<close>

definition fetch_pc :: "('c, 'a) nes \<Rightarrow> jsval \<times> ('c, 'a) nes" where
  "fetch_pc s =
     (let pc0 = reg_pc (cpu s);
          s1 = upd_cpu (\<lambda>c. c\<lparr>reg_pc := js_add pc0 (Num 1)\<rparr>) s
      in CPU_read s1 pc0)"

definition am_imm :: "('c, 'a) nes \<Rightarrow> jsval \<times> ('c, 'a) nes" where
  "am_imm s =
     (let pc0 = reg_pc (cpu s)
      in (to_num pc0, upd_cpu (\<lambda>c. c\<lparr>reg_pc := js_add pc0 (Num 1)\<rparr>) s))"

definition am_abs :: "('c, 'a) nes \<Rightarrow> jsval \<times> ('c, 'a) nes" where
  "am_abs s =
     (let (lo, s1) = fetch_pc s;
          (hi, s2) = fetch_pc s1
      in (Num (to_int lo OR push_bit 8 (to_int hi)), s2))"

definition am_ind :: "('c, 'a) nes \<Rightarrow> jsval \<times> ('c, 'a) nes" where
  "am_ind s =
     (let (ptr, s1) = am_abs s;
          (lo, s2) = CPU_read s1 ptr;
          (hi, s3) = CPU_read s2 (Num ((to_int ptr AND 0xFF00)
                                        OR (to_int (js_add ptr (Num 1)) AND 0xFF)))
      in (Num (to_int lo OR push_bit 8 (to_int hi)), s3))"

definition am_zpi :: "jsval \<Rightarrow> ('c, 'a) nes \<Rightarrow> jsval \<times> ('c, 'a) nes" where
  "am_zpi r s = (let (z, s1) = fetch_pc s in (Num (to_int (js_add z r) AND 0xFF), s1))"

definition am_absi :: "jsval \<Rightarrow> ('c, 'a) nes \<Rightarrow> jsval \<times> ('c, 'a) nes" where
  "am_absi r s =
     (let (a, s1) = am_abs s;
          res = to_int (js_add a r) AND 0xFFFF;
          s2 = (if (to_int a XOR res) AND 0xFF00 \<noteq> 0
                then upd_cpu (\<lambda>c. c\<lparr>pageCross := 1\<rparr>) s1 else s1)
      in (Num res, s2))"

definition am_indX :: "('c, 'a) nes \<Rightarrow> jsval \<times> ('c, 'a) nes" where
  "am_indX s =
     (let (z, s1) = fetch_pc s;
          t = to_int (js_add z (reg_x (cpu s1))) AND 0xFF;
          (lo, s2) = CPU_read s1 (Num t);
          (hi, s3) = CPU_read s2 (Num ((t + 1) AND 0xFF))
      in (Num (to_int lo OR push_bit 8 (to_int hi)), s3))"

definition am_indY :: "('c, 'a) nes \<Rightarrow> jsval \<times> ('c, 'a) nes" where
  "am_indY s =
     (let (t, s1) = fetch_pc s;
          (lo, s2) = CPU_read s1 t;
          (hi, s3) = CPU_read s2 (Num (to_int (js_add t (Num 1)) AND 0xFF));
          a = to_int lo OR push_bit 8 (to_int hi);
          res = to_int (js_add (Num a) (reg_y (cpu s3))) AND 0xFFFF;
          s4 = (if (a XOR res) AND 0xFF00 \<noteq> 0
                then upd_cpu (\<lambda>c. c\<lparr>pageCross := 1\<rparr>) s3 else s3)
      in (Num res, s4))"

definition am_rel :: "('c, 'a) nes \<Rightarrow> jsval \<times> ('c, 'a) nes" where
  "am_rel s =
     (let (off, s1) = fetch_pc s;
          pc1 = reg_pc (cpu s1)
      in (if js_lt off (Num 0x80) then js_add pc1 off
          else js_sub (js_add pc1 off) (Num 0x100), s1))"

definition fetchAddr :: "('c, 'a) nes \<Rightarrow> addr_mode \<Rightarrow> jsval \<times> ('c, 'a) nes" where
  "fetchAddr s m =
     (case m of
        IMP \<Rightarrow> (Null, s)
      | IMM \<Rightarrow> am_imm s
      | ZP0 \<Rightarrow> fetch_pc s
      | ZPX \<Rightarrow> am_zpi (reg_x (cpu s)) s
      | ZPY \<Rightarrow> am_zpi (reg_y (cpu s)) s
      | ABS \<Rightarrow> am_abs s
      | ABX \<Rightarrow> am_absi (reg_x (cpu s)) s
      | ABY \<Rightarrow> am_absi (reg_y (cpu s)) s
      | IZX \<Rightarrow> am_indX s
      | IZY \<Rightarrow> am_indY s
      | IND \<Rightarrow> am_ind s
      | REL \<Rightarrow> am_rel s)"

text \<open>The local helpers of \<open>execute\<close>.\<close>

definition ex_ADC :: "jsval \<Rightarrow> cpu6502 \<Rightarrow> cpu6502" where
  "ex_ADC val c =
     (let t = js_add (js_add (reg_a c) val) (Num (getFlag c 0));
          c1 = setFlag 0 (js_lt (Num 0xFF) t) c;
          c2 = setFlag 6 ((NOT (to_int (reg_a c1) XOR to_int val)
                           AND (to_int (reg_a c1) XOR to_int t) AND 0x80) \<noteq> 0) c1;
          c3 = c2\<lparr>reg_a := Num (to_int t AND 0xFF)\<rparr>
      in setZN (reg_a c3) c3)"

definition ex_SBC :: "jsval \<Rightarrow> cpu6502 \<Rightarrow> cpu6502" where
  "ex_SBC val c = ex_ADC (Num ((to_int val XOR 0xFF) AND 0xFF)) c"

definition ex_CMP :: "jsval \<Rightarrow> jsval \<Rightarrow> cpu6502 \<Rightarrow> cpu6502" where
  "ex_CMP r val c =
     (let t = js_sub r val
      in setZN (Num (to_int t AND 0xFF)) (setFlag 0 (js_ge r val) c))"

definition ex_BIT :: "jsval \<Rightarrow> cpu6502 \<Rightarrow> cpu6502" where
  "ex_BIT val c =
     setFlag 7 (to_int val AND 0x80 \<noteq> 0)
       (setFlag 6 (to_int val AND 0x40 \<noteq> 0)
          (setFlag 1 (to_int (reg_a c) AND to_int val = 0) c))"

text \<open>An instruction that reads its operand and changes registers only.\<close>

definition ex_load :: "(jsval \<Rightarrow> cpu6502 \<Rightarrow> cpu6502) \<Rightarrow> ('c, 'a) nes \<Rightarrow> jsval \<Rightarrow> ('c, 'a) nes" where
  "ex_load f s addr = (let (m, s1) = CPU_read s addr in upd_cpu (f m) s1)"

text \<open>
  The memory form of a read-modify-write instruction: \<open>f\<close> gives the carry and the result
  from the operand and the old carry.
\<close>

definition ex_rmw :: "(int \<Rightarrow> int \<Rightarrow> bool \<times> int) \<Rightarrow> ('c, 'a) nes \<Rightarrow> jsval \<Rightarrow> ('c, 'a) nes" where
  "ex_rmw f s addr =
     (let (m, s1) = CPU_read s addr;
          (cy, r) = f (to_int m) (getFlag (cpu s1) 0);
          s2 = upd_cpu (setFlag 0 cy) s1;
          s3 = CPU_write s2 addr (Num r)
      in upd_cpu (setZN (Num r)) s3)"

definition ex_acc :: "(int \<Rightarrow> int \<Rightarrow> bool \<times> int) \<Rightarrow> cpu6502 \<Rightarrow> cpu6502" where
  "ex_acc f c =
     (let (cy, r) = f (to_int (reg_a c)) (getFlag c 0);
          c1 = (setFlag 0 cy c)\<lparr>reg_a := Num r\<rparr>
      in setZN (reg_a c1) c1)"

definition sh_ASL :: "int \<Rightarrow> int \<Rightarrow> bool \<times> int" where
  "sh_ASL m cin = (drop_bit 7 m AND 1 \<noteq> 0, push_bit 1 m AND 0xFF)"

definition sh_LSR :: "int \<Rightarrow> int \<Rightarrow> bool \<times> int" where
  "sh_LSR m cin = (m AND 1 \<noteq> 0, drop_bit 1 m AND 0xFF)"

definition sh_ROL :: "int \<Rightarrow> int \<Rightarrow> bool \<times> int" where
  "sh_ROL m cin = (drop_bit 7 m AND 1 \<noteq> 0, (push_bit 1 m OR cin) AND 0xFF)"

definition sh_ROR :: "int \<Rightarrow> int \<Rightarrow> bool \<times> int" where
  "sh_ROR m cin = (m AND 1 \<noteq> 0, (drop_bit 1 m OR push_bit 7 cin) AND 0xFF)"

definition ex_shift :: "(int \<Rightarrow> int \<Rightarrow> bool \<times> int) \<Rightarrow> ('c, 'a) nes \<Rightarrow> jsval \<Rightarrow> ('c, 'a) nes" where
  "ex_shift f s addr =
     (if addrMode (cpu s) = Some IMP then upd_cpu (ex_acc f) s else ex_rmw f s addr)"

text \<open>\<open>INC\<close> and \<open>DEC\<close> on memory.\<close>

definition ex_incdec :: "jsval \<Rightarrow> ('c, 'a) nes \<Rightarrow> jsval \<Rightarrow> ('c, 'a) nes" where
  "ex_incdec d s addr =
     (let (m, s1) = CPU_read s addr;
          r = Num (to_int (js_add m d) AND 0xFF);
          s2 = CPU_write s1 addr r
      in upd_cpu (setZN r) s2)"

text \<open>A branch: taken, it costs a cycle, and one more when the target is on another page.\<close>

definition ex_branch :: "bool \<Rightarrow> jsval \<Rightarrow> cpu6502 \<Rightarrow> cpu6502" where
  "ex_branch taken addr c =
     (if taken then
        (let c1 = c\<lparr>cycles := js_add (cycles c) (Num 1)\<rparr>;
             c2 = (if to_int (reg_pc c1) AND 0xFF00 \<noteq> to_int addr AND 0xFF00
                   then c1\<lparr>cycles := js_add (cycles c1) (Num 1)\<rparr> else c1)
         in c2\<lparr>reg_pc := addr\<rparr>)
      else c)"

text \<open>\<open>execute\<close>: one case for each mnemonic of the table.\<close>

definition execute :: "('c, 'a) nes \<Rightarrow> instr \<Rightarrow> jsval \<Rightarrow> ('c, 'a) nes" where
  "execute s i addr =
     (case i of
        BRK \<Rightarrow>
          (let s1 = upd_cpu (\<lambda>c. c\<lparr>reg_pc := js_add (reg_pc c) (Num 1)\<rparr>) s;
               s2 = push_pc s1;
               s3 = upd_cpu (\<lambda>c. setFlag 2 True (setFlag 5 True (setFlag 4 True c))) s2;
               s4 = push s3 (Num (reg_p (cpu s3)))
           in read_vector s4 0xFFFE)
      | NOP \<Rightarrow> s
      | LDA \<Rightarrow> ex_load (\<lambda>m c. setZN m (c\<lparr>reg_a := m\<rparr>)) s addr
      | LDX \<Rightarrow> ex_load (\<lambda>m c. setZN m (c\<lparr>reg_x := m\<rparr>)) s addr
      | LDY \<Rightarrow> ex_load (\<lambda>m c. setZN m (c\<lparr>reg_y := m\<rparr>)) s addr
      | STA \<Rightarrow> CPU_write s addr (Num (to_int (reg_a (cpu s)) AND 0xFF))
      | STX \<Rightarrow> CPU_write s addr (Num (to_int (reg_x (cpu s)) AND 0xFF))
      | STY \<Rightarrow> CPU_write s addr (Num (to_int (reg_y (cpu s)) AND 0xFF))
      | TAX \<Rightarrow> upd_cpu (\<lambda>c. setZN (reg_a c) (c\<lparr>reg_x := reg_a c\<rparr>)) s
      | TAY \<Rightarrow> upd_cpu (\<lambda>c. setZN (reg_a c) (c\<lparr>reg_y := reg_a c\<rparr>)) s
      | TXA \<Rightarrow> upd_cpu (\<lambda>c. setZN (reg_x c) (c\<lparr>reg_a := reg_x c\<rparr>)) s
      | TYA \<Rightarrow> upd_cpu (\<lambda>c. setZN (reg_y c) (c\<lparr>reg_a := reg_y c\<rparr>)) s
      | TSX \<Rightarrow> upd_cpu (\<lambda>c. setZN (reg_sp c) (c\<lparr>reg_x := reg_sp c\<rparr>)) s
      | TXS \<Rightarrow> upd_cpu (\<lambda>c. c\<lparr>reg_sp := reg_x c\<rparr>) s
      | PHA \<Rightarrow> push s (reg_a (cpu s))
      | PHP \<Rightarrow> push s (Num (reg_p (cpu s) OR 0x10))
      | PLA \<Rightarrow> (let (m, s1) = pop s in upd_cpu (\<lambda>c. setZN m (c\<lparr>reg_a := m\<rparr>)) s1)
      | PLP \<Rightarrow> (let (m, s1) = pop s
                in upd_cpu (\<lambda>c. c\<lparr>reg_p := (to_int m AND 0xEF) OR 0x20\<rparr>) s1)
      | AND_ins \<Rightarrow>
          ex_load (\<lambda>m c. let r = Num (to_int (reg_a c) AND to_int m)
                          in setZN r (c\<lparr>reg_a := r\<rparr>)) s addr
      | ORA \<Rightarrow>
          ex_load (\<lambda>m c. let r = Num (to_int (reg_a c) OR to_int m)
                          in setZN r (c\<lparr>reg_a := r\<rparr>)) s addr
      | EOR \<Rightarrow>
          ex_load (\<lambda>m c. let r = Num (to_int (reg_a c) XOR to_int m)
                          in setZN r (c\<lparr>reg_a := r\<rparr>)) s addr
      | ADC \<Rightarrow> ex_load ex_ADC s addr
      | SBC \<Rightarrow> ex_load ex_SBC s addr
      | CMP \<Rightarrow> ex_load (\<lambda>m c. ex_CMP (reg_a c) m c) s addr
      | CPX \<Rightarrow> ex_load (\<lambda>m c. ex_CMP (reg_x c) m c) s addr
      | CPY \<Rightarrow> ex_load (\<lambda>m c. ex_CMP (reg_y c) m c) s addr
      | INC \<Rightarrow> ex_incdec (Num 1) s addr
      | INX \<Rightarrow> upd_cpu (\<lambda>c. let r = Num (to_int (js_add (reg_x c) (Num 1)) AND 0xFF)
                               in setZN r (c\<lparr>reg_x := r\<rparr>)) s
      | INY \<Rightarrow> upd_cpu (\<lambda>c. let r = Num (to_int (js_add (reg_y c) (Num 1)) AND 0xFF)
                               in setZN r (c\<lparr>reg_y := r\<rparr>)) s
      | DEC \<Rightarrow> ex_incdec (Num (- 1)) s addr
      | DEX \<Rightarrow> upd_cpu (\<lambda>c. let r = Num (to_int (js_sub (reg_x c) (Num 1)) AND 0xFF)
                               in setZN r (c\<lparr>reg_x := r\<rparr>)) s
      | DEY \<Rightarrow> upd_cpu (\<lambda>c. let r = Num (to_int (js_sub (reg_y c) (Num 1)) AND 0xFF)
                               in setZN r (c\<lparr>reg_y := r\<rparr>)) s
      | ASL \<Rightarrow> ex_shift sh_ASL s addr
      | LSR \<Rightarrow> ex_shift sh_LSR s addr
      | ROL \<Rightarrow> ex_shift sh_ROL s addr
      | ROR \<Rightarrow> ex_shift sh_ROR s addr
      | BIT \<Rightarrow> ex_load ex_BIT s addr
      | JMP \<Rightarrow> upd_cpu (\<lambda>c. c\<lparr>reg_pc := addr\<rparr>) s
      | JSR \<Rightarrow>
          (let ret = to_int (js_sub (reg_pc (cpu s)) (Num 1)) AND 0xFFFF;
               s1 = push s (Num (drop_bit 8 ret AND 0xFF));
               s2 = push s1 (Num (ret AND 0xFF))
           in upd_cpu (\<lambda>c. c\<lparr>reg_pc := addr\<rparr>) s2)
      | RTS \<Rightarrow>
          (let (lo, s1) = pop s;
               (hi, s2) = pop s1
           in upd_cpu (\<lambda>c. c\<lparr>reg_pc := Num ((push_bit 8 (to_int hi) OR to_int lo) + 1)\<rparr>) s2)
      | RTI \<Rightarrow>
          (let (m, s1) = pop s;
               s2 = upd_cpu (\<lambda>c. c\<lparr>reg_p := (to_int m AND 0xEF) OR 0x20\<rparr>) s1;
               (lo, s3) = pop s2;
               (hi, s4) = pop s3
           in upd_cpu (\<lambda>c. c\<lparr>reg_pc := Num (push_bit 8 (to_int hi) OR to_int lo)\<rparr>) s4)
      | BCC \<Rightarrow> upd_cpu (\<lambda>c. ex_branch (getFlag c 0 = 0) addr c) s
      | BCS \<Rightarrow> upd_cpu (\<lambda>c. ex_branch (getFlag c 0 \<noteq> 0) addr c) s
      | BEQ \<Rightarrow> upd_cpu (\<lambda>c. ex_branch (getFlag c 1 \<noteq> 0) addr c) s
      | BMI \<Rightarrow> upd_cpu (\<lambda>c. ex_branch (getFlag c 7 \<noteq> 0) addr c) s
      | BNE \<Rightarrow> upd_cpu (\<lambda>c. ex_branch (getFlag c 1 = 0) addr c) s
      | BPL \<Rightarrow> upd_cpu (\<lambda>c. ex_branch (getFlag c 7 = 0) addr c) s
      | BVC \<Rightarrow> upd_cpu (\<lambda>c. ex_branch (getFlag c 6 = 0) addr c) s
      | BVS \<Rightarrow> upd_cpu (\<lambda>c. ex_branch (getFlag c 6 \<noteq> 0) addr c) s
      | CLC \<Rightarrow> upd_cpu (setFlag 0 False) s
      | SEC \<Rightarrow> upd_cpu (setFlag 0 True) s
      | CLI \<Rightarrow> upd_cpu (setFlag 2 False) s
      | SEI \<Rightarrow> upd_cpu (setFlag 2 True) s
      | CLV \<Rightarrow> upd_cpu (setFlag 6 False) s
      | CLD \<Rightarrow> upd_cpu (setFlag 3 False) s
      | SED \<Rightarrow> upd_cpu (setFlag 3 True) s)"

text \<open>
  \<open>step\<close>: the value returned and the machine after it. An entry of the table has the
  fields \<open>mode\<close>, \<open>ins\<close> and \<open>cyc\<close>; \<open>step\<close> reads \<open>entry.cy\<close>, which no entry has, so
  the cost \<open>c\<close> it adds is \<open>undefined + pageCross\<close>.
\<close>

definition CPU_step :: "('c, 'a) nes \<Rightarrow> jsval \<times> ('c, 'a) nes" where
  "CPU_step s =
     (if stall (cpu s) > 0 then
        (Num 1, upd_cpu (\<lambda>c. c\<lparr>stall := stall c - 1, cycles := js_add (cycles c) (Num 1)\<rparr>) s)
      else
        (let (op, s1) = fetch_pc s
         in case OPCODES op of
              None \<Rightarrow> (Num 1, s1)
            | Some entry \<Rightarrow>
                (let s2 = upd_cpu (\<lambda>c. c\<lparr>addrMode := Some (mode entry), pageCross := 0\<rparr>) s1;
                     (addr, s3) = fetchAddr s2 (mode entry);
                     cyclesBefore = cycles (cpu s3);
                     s4 = execute s3 (ins entry) addr;
                     c = js_add Undefined (Num (pageCross (cpu s4)));
                     s5 = upd_cpu (\<lambda>k. k\<lparr>cycles := js_add (cycles k) c\<rparr>) s4
                 in (js_sub (cycles (cpu s5)) cyclesBefore, s5))))"

section \<open>Initial states\<close>

text \<open>The states that the constructors build, used as concrete inputs below.\<close>

definition Mapper1_new :: mapper1 where
  "Mapper1_new = \<lparr>m1_shift = 0x10, m1_ctrl = 0x0C, m1_prgBank = 0, m1_chrBank0 = 0, m1_chrBank1 = 0\<rparr>"

text \<open>
  The mapper object that \<open>parseINES\<close> instantiates for a mapper id: the constructors of
  mappers 0 to 3 set their registers, the constructor of mapper 4 throws at its assignment
  to the getter-only \<open>mirror\<close>, and every other id falls back to mapper 0.
\<close>

datatype error = TypeError

definition instantiate_mapper :: "int \<Rightarrow> error + mapper" where
  "instantiate_mapper m =
     (if m = 0 then Inr Mapper0
      else if m = 1 then Inr (Mapper1 Mapper1_new)
      else if m = 2 then Inr (Mapper2 0)
      else if m = 3 then Inr (Mapper3 0)
      else if m = 4 then Inl TypeError
      else Inr Mapper0)"

text \<open>
  A cartridge as \<open>parseINES\<close> builds it from a file with one 16 KiB PRG bank that starts
  with the given bytes, no CHR bank (so 8 KiB of CHR RAM), horizontal mirroring.
\<close>

definition cart_of :: "mapper \<Rightarrow> int list \<Rightarrow> cartridge" where
  "cart_of m code =
     \<lparr>prg = code @ replicate (16384 - length code) 0, chr = replicate 8192 0, chrRAM = True,
      sram = replicate 8192 0, cart_mirror = Horizontal, mapperInstance = m\<rparr>"

text \<open>
  \<open>new PPU()\<close> followed by \<open>attachCanvas\<close> and \<open>connectCart\<close>. The colour of an entry
  of the NTSC table is \<open>(255 << 24) | (b << 16) | (g << 8) | r\<close>, a 32-bit signed value.
\<close>

definition NTSC_PALETTE :: "(int \<times> int \<times> int) list" where
  "NTSC_PALETTE =
    [(84,84,84),(0,30,116),(8,16,144),(48,0,136),(68,0,100),(92,0,48),(84,4,0),(60,24,0),
     (32,42,0),(8,58,0),(0,64,0),(0,60,0),(0,50,60),(0,0,0),(0,0,0),(0,0,0),
     (152,150,152),(8,76,196),(48,50,236),(92,30,228),(136,20,176),(160,20,100),(152,34,32),
     (120,60,0),
     (84,90,0),(40,114,0),(8,124,0),(0,118,40),(0,102,120),(0,0,0),(0,0,0),(0,0,0),
     (236,238,236),(76,154,236),(120,124,236),(176,98,236),(228,84,236),(236,88,180),
     (236,106,100),(212,136,32),
     (160,170,0),(116,196,0),(76,208,32),(56,204,108),(56,180,204),(60,60,60),(0,0,0),(0,0,0),
     (236,238,236),(168,204,236),(188,188,236),(212,178,236),(236,174,236),(236,174,212),
     (236,180,176),(228,196,144),
     (204,210,120),(180,222,120),(168,226,144),(152,226,180),(160,214,228),(160,162,160),
     (0,0,0),(0,0,0)]"

definition rgba :: "int \<times> int \<times> int \<Rightarrow> int" where
  "rgba e = (case e of (r, g, b) \<Rightarrow>
     signed_take_bit 31 (push_bit 24 255) OR push_bit 16 b OR push_bit 8 g OR r)"

definition PPU_new :: "cartridge \<Rightarrow> ppu" where
  "PPU_new c =
     \<lparr>ppu_v = 0, ppu_t = 0, ppu_x = 0, ppu_w = 0, ctrl = 0, ppu_mask = 0, status = 0,
      oam = replicate 256 0, oamaddr = 0, secOAM = replicate 32 0, spriteCount = 0,
      spriteZeroInLine = False, vram = replicate 2048 0, palette = replicate 32 0,
      mapper_connected = True, mirror = cart_mirror c,
      fb = replicate (256 * 240) 0, paletteRGB = map rgba NTSC_PALETTE,
      cycle = 0, scanline = 261, frame = 0, nmi = False,
      nameTableByte = Num 0, attrTableByte = Num 0, patternLo = Num 0, patternHi = Num 0,
      bgShiftLo = 0, bgShiftHi = 0, attrShiftLo = 0, attrShiftHi = 0, bgLatch_pal = 0,
      spriteShiftsLo = replicate 8 0, spriteShiftsHi = replicate 8 0, spriteX = replicate 8 0,
      spriteAttr = replicate 8 0, spriteY = replicate 8 0, spriteIndices = replicate 8 0,
      buffered = Num 0\<rparr>"

definition CPU_new :: cpu6502 where
  "CPU_new =
     \<lparr>reg_a = Num 0, reg_x = Num 0, reg_y = Num 0, reg_sp = Num 0xFD, reg_p = 0x24,
      reg_pc = Num 0, cycles = Num 0, stall = 0, addrMode = None, pageCross = 0\<rparr>"

text \<open>A controller that is never pressed and an APU without \<open>read\<close> and \<open>write\<close>.\<close>

definition idle_controller :: "unit controller" where
  "idle_controller = \<lparr>ctl_state = (), ctl_read = (\<lambda>st. (Num 0, st)), ctl_write = (\<lambda>st val. st)\<rparr>"

definition mute_apu :: "unit apu_dev" where
  "mute_apu = \<lparr>apu_state = (), apu_read = None, apu_write = None\<rparr>"

definition nes_new :: "cartridge \<Rightarrow> (unit, unit) nes" where
  "nes_new c =
     \<lparr>cpu = CPU_new, ppu = PPU_new c, apu = mute_apu, controller_0 = idle_controller,
      controller_1 = idle_controller, cart = c, ram = replicate 2048 0\<rparr>"

text \<open>A machine with the given bytes at \<open>$8000\<close> and the CPU about to run them.\<close>

definition machine_at :: "int list \<Rightarrow> (unit, unit) nes" where
  "machine_at code = (nes_new (cart_of Mapper0 code))\<lparr>cpu := CPU_new\<lparr>reg_pc := Num 0x8000\<rparr>\<rparr>"

text \<open>
  The machine of the indirect-jump scenario: \<open>6C FF 10\<close> at \<open>$8000\<close>, and \<open>$34\<close>,
  \<open>$12\<close>, \<open>$56\<close> written through the bus at \<open>$10FF\<close>, \<open>$1000\<close>, \<open>$1100\<close>.
\<close>

definition jmp_wrap_machine :: "(unit, unit) nes" where
  "jmp_wrap_machine =
     cpuWrite (cpuWrite (cpuWrite (machine_at [0x6C, 0xFF, 0x10]) 0x10FF 0x34) 0x1000 0x12)
       0x1100 0x56"

text \<open>
  The machine of the DMA example: \<open>STA $4014\<close> at \<open>$8000\<close>, \<open>$5A\<close> and \<open>$77\<close> written
  through the bus at \<open>$0200\<close> and \<open>$0203\<close>, and \<open>A = 2\<close>.
\<close>

definition dma_machine :: "(unit, unit) nes" where
  "dma_machine =
     (cpuWrite (cpuWrite (machine_at [0x8D, 0x14, 0x40]) 0x0200 0x5A) 0x0203 0x77)
       \<lparr>cpu := CPU_new\<lparr>reg_pc := Num 0x8000, reg_a := Num 0x02\<rparr>\<rparr>"

section \<open>The sprite-0 hit in the words of the specification\<close>

text \<open>
  The specification asks that the hit be set when both pixels are non-zero, the sprite is
  sprite 0, \<open>spriteZeroInLine\<close> holds, \<open>x \<noteq> 255\<close>, background and sprites are both
  enabled, and the pixel is not suppressed in the leftmost eight pixels, where bits 1 and 2
  of \<open>mask\<close> show the background and the sprites. \<open>spec_sprite0_hit\<close> is that condition
  on the pixels the code computes; it is compared with what \<open>step\<close> does.
\<close>

definition left8_suppressed :: "ppu \<Rightarrow> int \<Rightarrow> bool" where
  "left8_suppressed p x = (x < 8 \<and> (ppu_mask p AND 0x02 = 0 \<or> ppu_mask p AND 0x04 = 0))"

definition spec_sprite0_hit :: "ppu \<Rightarrow> int \<Rightarrow> bool" where
  "spec_sprite0_hit p x =
     (fst (bg_pixel p) \<noteq> 0 \<and> sprite_pixel p \<noteq> 0
      \<and> sprite_hit_slot p = Some 0 \<and> spriteZeroInLine p \<and> x \<noteq> 255
      \<and> ppu_mask p AND 0x08 \<noteq> 0 \<and> ppu_mask p AND 0x10 \<noteq> 0
      \<and> \<not> left8_suppressed p x)"

text \<open>
  A PPU on dot 4 of scanline 0 (pixel 3), background and sprites enabled, the leftmost
  eight pixels hidden for both; the background shifter and slot 0, which holds sprite 0,
  both have an opaque pixel next.
\<close>

definition left_edge_hit_state :: ppu where
  "left_edge_hit_state =
     (PPU_new (cart_of Mapper0 []))
       \<lparr>ppu_mask := 0x18, spriteZeroInLine := True, cycle := 4, scanline := 0,
        bgShiftLo := 0x8000, spriteShiftsLo := 0x80 # replicate 7 0,
        spriteX := 0 # replicate 7 0xFF, spriteY := 0 # replicate 7 0xFF\<rparr>"

section \<open>Predicates of the proofs\<close>

text \<open>
  \<open>keeps_vblank p p'\<close>: from \<open>p\<close> to \<open>p'\<close> the dot counters, \<open>ctrl\<close>, \<open>mask\<close>, the NMI
  line and bit 7 (VBlank) of the status register are unchanged.
\<close>

definition keeps_vblank :: "ppu \<Rightarrow> ppu \<Rightarrow> bool" where
  "keeps_vblank p p' =
     (scanline p' = scanline p \<and> cycle p' = cycle p \<and> ctrl p' = ctrl p
      \<and> ppu_mask p' = ppu_mask p \<and> nmi p' = nmi p
      \<and> status p' AND 0x80 = status p AND 0x80)"

section \<open>Verified properties\<close>

subsection \<open>Bit masks and typed arrays\<close>

lemma and_255_mod: "(a::int) AND 0xFF = a mod 256"
proof -
  have "a AND Bit_Operations.mask 8 = a mod 2 ^ 8"
    by (simp only: take_bit_eq_mod flip: take_bit_eq_mask)
  then show ?thesis by (simp add: mask_eq_exp_minus_1)
qed

lemma length_ta_set [simp]: "length (ta_set xs i b) = length xs"
  by (simp add: ta_set_def)

lemma and_mask_int: "(a::int) AND Bit_Operations.mask n = a mod 2 ^ n"
  by (simp only: take_bit_eq_mod flip: take_bit_eq_mask)

lemma and_1F_mod: "(a::int) AND 0x1F = a mod 32"
  using and_mask_int [of a 5] by (simp add: mask_eq_exp_minus_1)

lemma and_3F_mod: "(a::int) AND 0x3F = a mod 64"
  using and_mask_int [of a 6] by (simp add: mask_eq_exp_minus_1)

lemma and_7FF_mod: "(a::int) AND 0x7FF = a mod 2048"
  using and_mask_int [of a 11] by (simp add: mask_eq_exp_minus_1)

lemma and_3FFF_mod: "(a::int) AND 0x3FFF = a mod 16384"
  using and_mask_int [of a 14] by (simp add: mask_eq_exp_minus_1)

lemma and_7FFF_mod: "(a::int) AND 0x7FFF = a mod 32768"
  using and_mask_int [of a 15] by (simp add: mask_eq_exp_minus_1)

lemma and_FFFF_mod: "(a::int) AND 0xFFFF = a mod 65536"
  using and_mask_int [of a 16] by (simp add: mask_eq_exp_minus_1)

lemma or_and_absorb: "(s OR m) AND m = (m::int)"
  by (auto simp add: bit_eq_iff bit_and_iff bit_or_iff)

lemma or_40_and_80: "(s OR 0x40) AND 0x80 = s AND (0x80::int)"
  by (simp add: bit.conj_disj_distrib2)

lemma or_20_and_80: "(s OR 0x20) AND 0x80 = s AND (0x80::int)"
  by (simp add: bit.conj_disj_distrib2)

subsection \<open>What the parts of a dot leave alone\<close>

text \<open>
  Each part of a dot leaves the dot counters, \<open>ctrl\<close>, \<open>mask\<close>, the NMI line and bit 7 of
  the status register as they are; only \<open>step_clear\<close>, \<open>step_vblank\<close> and
  \<open>step_advance\<close> are looked at one by one.
\<close>

lemma kv_refl [simp]: "keeps_vblank p p"
  by (simp add: keeps_vblank_def)

lemma kv_trans: "keeps_vblank p q \<Longrightarrow> keeps_vblank q r \<Longrightarrow> keeps_vblank p r"
  by (simp add: keeps_vblank_def)

lemma kv_foldl:
  assumes "\<And>q i. keeps_vblank q (f q i)"
  shows "keeps_vblank p (foldl f p xs)"
proof (induction xs arbitrary: p)
  case Nil
  show ?case by simp
next
  case (Cons x xs)
  have "keeps_vblank p (f p x)" by (rule assms)
  moreover have "keeps_vblank (f p x) (foldl f (f p x) xs)" by (rule Cons.IH)
  ultimately show ?case by (simp add: kv_trans)
qed

lemma kv_fetch: "keeps_vblank p (step_fetch c p)"
  by (simp add: step_fetch_def keeps_vblank_def fetchName_def fetchAttr_def
      fetchPatternLow_def fetchPatternHigh_def loadBGShiftRegisters_def Let_def)

lemma kv_renderPixel: "keeps_vblank p (renderPixel p x y)"
  by (simp add: renderPixel_def keeps_vblank_def Let_def or_40_and_80)

lemma kv_shift_slot: "keeps_vblank p (shift_slot p i)"
  by (simp add: shift_slot_def keeps_vblank_def)

lemma kv_stepShifters: "keeps_vblank p (stepShifters p)"
proof -
  let ?p1 = "if ppu_mask p AND 0x08 \<noteq> 0 then
                  p\<lparr>bgShiftLo := push_bit 1 (bgShiftLo p) AND 0xFFFF,
                    bgShiftHi := push_bit 1 (bgShiftHi p) AND 0xFFFF,
                    attrShiftLo := push_bit 1 (attrShiftLo p) AND 0xFFFF,
                    attrShiftHi := push_bit 1 (attrShiftHi p) AND 0xFFFF\<rparr>
                else p"
  have a: "keeps_vblank p ?p1" by (simp add: keeps_vblank_def)
  have b: "keeps_vblank ?p1 (foldl shift_slot ?p1 [0..<8])"
    by (rule kv_foldl) (rule kv_shift_slot)
  have "stepShifters p = (if ppu_mask ?p1 AND 0x10 \<noteq> 0 then foldl shift_slot ?p1 [0..<8] else ?p1)"
    by (simp add: stepShifters_def Let_def)
  then show ?thesis using a b kv_trans [OF a b] by (simp split: if_splits)
qed

lemma kv_incCoarseX: "keeps_vblank p (incCoarseX p)"
  by (simp add: incCoarseX_def keeps_vblank_def)

lemma kv_incY: "keeps_vblank p (incY p)"
  by (simp add: incY_def keeps_vblank_def Let_def)

lemma kv_copyX: "keeps_vblank p (copyX p)"
  by (simp add: copyX_def keeps_vblank_def)

lemma kv_copyY: "keeps_vblank p (copyY p)"
  by (simp add: copyY_def keeps_vblank_def)

lemma kv_backdrop: "keeps_vblank p (p\<lparr>fb := z\<rparr>)"
  by (simp add: keeps_vblank_def)

lemma kv_step_dot: "keeps_vblank p (step_dot c re p)"
proof -
  let ?p1 = "step_fetch c p"
  let ?p2 = "if re then renderPixel ?p1 (cycle ?p1 - 1) (scanline ?p1)
             else ?p1\<lparr>fb := u32_set (fb ?p1) (scanline ?p1 * 256 + (cycle ?p1 - 1))
                                 (rgb_of ?p1 (palette ?p1 ! 0 AND 0x3F))\<rparr>"
  let ?p3 = "stepShifters ?p2"
  have e: "step_dot c re p = (if cycle ?p3 AND 7 = 0 then incCoarseX ?p3 else ?p3)"
    by (simp add: step_dot_def Let_def)
  have k1: "keeps_vblank p ?p1" by (rule kv_fetch)
  have k2: "keeps_vblank ?p1 ?p2" by (simp add: kv_renderPixel kv_backdrop)
  have k3: "keeps_vblank ?p2 ?p3" by (rule kv_stepShifters)
  have k4: "keeps_vblank ?p3 (if cycle ?p3 AND 7 = 0 then incCoarseX ?p3 else ?p3)"
    by (simp add: kv_incCoarseX)
  show ?thesis unfolding e using k1 k2 k3 k4 by (blast intro: kv_trans)
qed


lemma kv_evaluate_scan: "keeps_vblank p (evaluate_scan y is p)"
proof (induction "is" arbitrary: p)
  case Nil
  show ?case by simp
next
  case (Cons i rest)
  let ?in = "y - oam p ! (i * 4) \<ge> 0
             \<and> y - oam p ! (i * 4) < (if ctrl p AND 0x20 \<noteq> 0 then 16 else 8)"
  let ?p1 = "if spriteCount p < 8 then
               p\<lparr>secOAM := ta_set (ta_set (ta_set (ta_set (secOAM p) (spriteCount p * 4 + 0)
                            (oam p ! (i * 4))) (spriteCount p * 4 + 1) (oam p ! (i * 4 + 1)))
                            (spriteCount p * 4 + 2) (oam p ! (i * 4 + 2)))
                            (spriteCount p * 4 + 3) (oam p ! (i * 4 + 3)),
                 spriteZeroInLine := (if i = 0 then True else spriteZeroInLine p)\<rparr>
             else p"
  let ?p2 = "?p1\<lparr>spriteCount := spriteCount ?p1 + 1\<rparr>"
  have e: "evaluate_scan y (i # rest) p =
             (if ?in then (if spriteCount ?p2 = 9 then ?p2\<lparr>status := status ?p2 OR 0x20\<rparr>
                           else evaluate_scan y rest ?p2)
              else evaluate_scan y rest p)"
    by (simp add: Let_def)
  have k2: "keeps_vblank p ?p2" by (simp add: keeps_vblank_def)
  have k3: "keeps_vblank p (?p2\<lparr>status := status ?p2 OR 0x20\<rparr>)"
    by (simp add: keeps_vblank_def or_20_and_80)
  have k4: "keeps_vblank p (evaluate_scan y rest ?p2)"
    using k2 Cons.IH [of ?p2] by (rule kv_trans)
  show ?case unfolding e using k3 k4 Cons.IH [of p] by simp
qed

lemma kv_evaluate_slot: "keeps_vblank p (evaluate_slot p i)"
  by (simp add: evaluate_slot_def keeps_vblank_def Let_def)

lemma kv_evaluateSprites: "keeps_vblank p (evaluateSprites p)"
proof -
  let ?p0 = "p\<lparr>spriteCount := 0, spriteZeroInLine := False,
                 secOAM := foldl (\<lambda>s i. ta_set s (int i) 0xFF) (secOAM p) [0..<32]\<rparr>"
  let ?p1 = "evaluate_scan (scanline p) [0..<64] ?p0"
  have e: "evaluateSprites p = foldl evaluate_slot ?p1 [0..<8]"
    by (simp add: evaluateSprites_def Let_def)
  have k0: "keeps_vblank p ?p0" by (simp add: keeps_vblank_def)
  have k1: "keeps_vblank ?p0 ?p1" by (rule kv_evaluate_scan)
  have k2: "keeps_vblank ?p1 (foldl evaluate_slot ?p1 [0..<8])"
    by (rule kv_foldl) (rule kv_evaluate_slot)
  show ?thesis unfolding e using k0 k1 k2 by (blast intro: kv_trans)
qed

lemma kv_fetch_slot: "keeps_vblank p (fetch_slot c p i)"
  by (simp add: fetch_slot_def keeps_vblank_def Let_def)

lemma kv_fetchSpritePatterns: "keeps_vblank p (fetchSpritePatterns c p)"
  unfolding fetchSpritePatterns_def by (rule kv_foldl) (rule kv_fetch_slot)

lemma kv_hide_empty_slot: "keeps_vblank p (hide_empty_slot p i)"
  by (simp add: hide_empty_slot_def keeps_vblank_def)

lemma kv_step_sprites: "keeps_vblank p (step_sprites c re p)"
proof (cases re)
  case False
  then show ?thesis by (simp add: step_sprites_def)
next
  case True
  let ?p1 = "copyX p"
  let ?p2 = "evaluateSprites ?p1"
  let ?p3 = "fetchSpritePatterns c ?p2"
  have e: "step_sprites c re p = foldl hide_empty_slot ?p3 [0..<8]"
    using True by (simp add: step_sprites_def)
  have k4: "keeps_vblank ?p3 (foldl hide_empty_slot ?p3 [0..<8])"
    by (rule kv_foldl) (rule kv_hide_empty_slot)
  show ?thesis unfolding e
    using kv_copyX [of p] kv_evaluateSprites [of ?p1] kv_fetchSpritePatterns [of ?p2 c] k4
    by (blast intro: kv_trans)
qed

lemma kv_step_visible: "keeps_vblank p (step_visible c re p)"
proof -
  let ?p1 = "if cycle p \<ge> 1 \<and> cycle p \<le> 256 then step_dot c re p else p"
  let ?p2 = "if cycle ?p1 = 257 then step_sprites c re ?p1 else ?p1"
  let ?p3 = "if cycle ?p2 = 256 then (if re then incY ?p2 else ?p2) else ?p2"
  have e: "step_visible c re p = (if scanline p \<ge> 0 \<and> scanline p \<le> 239 then ?p3 else p)"
    by (simp add: step_visible_def Let_def)
  have k1: "keeps_vblank p ?p1" by (simp add: kv_step_dot)
  have k2: "keeps_vblank ?p1 ?p2" by (simp add: kv_step_sprites)
  have k3: "keeps_vblank ?p2 ?p3" by (simp add: kv_incY)
  have "keeps_vblank p ?p3" using k1 k2 k3 by (blast intro: kv_trans)
  then show ?thesis unfolding e by simp
qed

lemma kv_step_prerender: "keeps_vblank p (step_prerender re p)"
  by (simp add: step_prerender_def kv_copyY)

lemma step_advance_flags:
  "status (step_advance p) = status p \<and> nmi (step_advance p) = nmi p"
  by (simp add: step_advance_def Let_def)

subsection \<open>Bus reads and the CPU\<close>

text \<open>A read on the bus leaves the CPU alone.\<close>

lemma cpuRead_cpu: "cpu (snd (cpuRead s a)) = cpu s"
  by (simp add: cpuRead_def Let_def split: prod.splits option.splits)

lemma CPU_read_cpu: "cpu (snd (CPU_read s a)) = cpu s"
  by (simp add: CPU_read_def cpuRead_cpu)

lemma fetch_pc_cpu:
  "cpu (snd (fetch_pc s)) = (cpu s)\<lparr>reg_pc := js_add (reg_pc (cpu s)) (Num 1)\<rparr>"
  by (simp add: fetch_pc_def Let_def CPU_read_cpu upd_cpu_def)

lemma machine_at_cpu:
  "stall (cpu (machine_at code)) = 0 \<and> cycles (cpu (machine_at code)) = Num 0
   \<and> reg_pc (cpu (machine_at code)) = Num 0x8000"
  by (simp add: machine_at_def CPU_new_def)

text \<open>Writes and reads below \<open>$2000\<close> touch the RAM only.\<close>

lemma ram_write:
  assumes "0 \<le> a" "a \<le> 0x1FFF"
  shows "cpuWrite s a v = s\<lparr>ram := ta_set (ram s) (a mod 2048) (v AND 0xFF)\<rparr>"
proof -
  from assms have "a AND 0xFFFF = a" by (simp add: and_FFFF_mod)
  with assms show ?thesis by (simp add: cpuWrite_def Let_def and_7FF_mod)
qed

lemma ram_read:
  assumes "0 \<le> a" "a \<le> 0x1FFF"
  shows "cpuRead s a = (ta_get (ram s) (a mod 2048), s)"
proof -
  from assms have "a AND 0xFFFF = a" by (simp add: and_FFFF_mod)
  with assms show ?thesis by (simp add: cpuRead_def Let_def and_7FF_mod)
qed

text \<open>Reads of PRG bytes and of RAM change nothing.\<close>

lemma cpuRead_prg:
  assumes "0x8000 \<le> a" "a \<le> 0xFFFF" "a - 0x8000 < int (length (prg (cart s)))"
  shows "cpuRead s a = (Num (prg (cart s) ! nat (a - 0x8000)), s)"
proof -
  from assms have "a AND 0xFFFF = a" by (simp add: and_FFFF_mod)
  with assms show ?thesis by (simp add: cpuRead_def Let_def cart_read_def ta_get_def)
qed

lemma cpuRead_ram:
  assumes "0 \<le> a" "a < 0x2000" "length (ram s) = 0x800"
  shows "cpuRead s a = (Num (ram s ! nat (a mod 2048)), s)"
proof -
  from assms have "a AND 0xFFFF = a" by (simp add: and_FFFF_mod)
  moreover have "0 \<le> a mod 2048 \<and> a mod 2048 < 2048" by simp
  ultimately show ?thesis
    using assms by (simp add: cpuRead_def Let_def and_7FF_mod ta_get_def)
qed

lemma fetch_pc_prg:
  assumes "reg_pc (cpu s) = Num a" "0x8000 \<le> a" "a \<le> 0xFFFF"
    "a - 0x8000 < int (length (prg (cart s)))"
  shows "fetch_pc s = (Num (prg (cart s) ! nat (a - 0x8000)),
                       s\<lparr>cpu := (cpu s)\<lparr>reg_pc := Num (a + 1)\<rparr>\<rparr>)"
proof -
  let ?s1 = "s\<lparr>cpu := (cpu s)\<lparr>reg_pc := Num (a + 1)\<rparr>\<rparr>"
  have "a AND 0xFFFF = a" using assms(2,3) by (simp add: and_FFFF_mod)
  then have "CPU_read ?s1 (Num a) = (Num (prg (cart s) ! nat (a - 0x8000)), ?s1)"
    using cpuRead_prg [of a ?s1] assms(2-4) by (simp add: CPU_read_def)
  then show ?thesis using assms(1) by (simp add: fetch_pc_def Let_def upd_cpu_def js_add_def)
qed

lemma CPU_read_ram:
  assumes "0 \<le> a" "a < 0x2000" "length (ram s) = 0x800"
  shows "CPU_read s (Num a) = (Num (ram s ! nat (a mod 2048)), s)"
proof -
  from assms have "a AND 0xFFFF = a" by (simp add: and_FFFF_mod)
  then show ?thesis using cpuRead_ram [OF assms] by (simp add: CPU_read_def)
qed

subsection \<open>The copy loop of \<open>doDMA\<close>\<close>

lemma doDMA_index_mod: "doDMA_index p i = (oamaddr p + int i) mod 256"
  by (simp add: doDMA_index_def and_255_mod)

lemma doDMA_index_range: "0 \<le> doDMA_index p i \<and> doDMA_index p i < 256"
  by (simp add: doDMA_index_mod)

lemma doDMA_index_inj:
  assumes "i < 256" "j < 256" "doDMA_index p i = doDMA_index p j"
  shows "i = j"
proof -
  from assms(3) have "(oamaddr p + int i) mod 256 = (oamaddr p + int j) mod 256"
    by (simp add: doDMA_index_mod)
  then have "(oamaddr p + int i - (oamaddr p + int j)) mod 256 = 0"
    by (simp add: mod_eq_dvd_iff)
  then have dv: "256 dvd (int i - int j)" by (simp add: mod_eq_0_iff_dvd)
  have "\<bar>int i - int j\<bar> < 256" using assms(1,2) by linarith
  with dv have "int i - int j = 0"
    using dvd_imp_le_int [of "int i - int j" 256] by fastforce
  then show ?thesis by simp
qed

text \<open>
  The loop after \<open>n\<close> rounds: the array keeps its length, and the cell of each round so far
  holds that round's byte, since no later round has hit the same cell.
\<close>

lemma doDMA_prefix:
  assumes "length arr = 256" "n \<le> 256"
  shows "length (foldl (doDMA_store p buf) arr [0..<n]) = 256 \<and>
         (\<forall>i<n. foldl (doDMA_store p buf) arr [0..<n] ! nat (doDMA_index p i)
                   = to_int (ta_get buf (int i)) mod 256)"
  using assms(2)
proof (induction n)
  case 0
  then show ?case using assms(1) by simp
next
  case (Suc n)
  let ?a = "foldl (doDMA_store p buf) arr [0..<n]"
  let ?v = "to_int (ta_get buf (int n)) mod 256"
  from Suc have len: "length ?a = 256"
    and old: "\<forall>i<n. ?a ! nat (doDMA_index p i) = to_int (ta_get buf (int i)) mod 256"
    by simp_all
  have rng: "nat (doDMA_index p n) < 256"
    using doDMA_index_range [of p n] by linarith
  have step: "foldl (doDMA_store p buf) arr [0..<Suc n] = ?a[nat (doDMA_index p n) := ?v]"
    using len doDMA_index_range [of p n] by (simp add: doDMA_store_def ta_set_def)
  have "(?a[nat (doDMA_index p n) := ?v]) ! nat (doDMA_index p i)
          = to_int (ta_get buf (int i)) mod 256" if i: "i < Suc n" for i
  proof (cases "i = n")
    case True
    then show ?thesis using len rng by simp
  next
    case False
    with i have lt: "i < n" by simp
    have "doDMA_index p i \<noteq> doDMA_index p n"
      using doDMA_index_inj [of i n p] lt Suc.prems by auto
    then have "nat (doDMA_index p n) \<noteq> nat (doDMA_index p i)"
      using doDMA_index_range [of p n] doDMA_index_range [of p i] by auto
    then show ?thesis using old lt by simp
  qed
  then show ?case using len step by simp
qed

subsection \<open>The sprite-0 hit\<close>

lemma field_foldl:
  assumes "\<And>q i. g (f q i) = g q"
  shows "g (foldl f p xs) = g p"
  by (induction xs arbitrary: p) (simp_all add: assms)

lemma status_step_fetch: "status (step_fetch c p) = status p"
  by (simp add: step_fetch_def fetchName_def fetchAttr_def
      fetchPatternLow_def fetchPatternHigh_def loadBGShiftRegisters_def Let_def)

lemma status_shift_slot: "status (shift_slot p i) = status p"
  by (simp add: shift_slot_def)

lemma status_stepShifters: "status (stepShifters p) = status p"
  by (simp add: stepShifters_def Let_def field_foldl [where g = status] status_shift_slot)

lemma status_incCoarseX: "status (incCoarseX p) = status p"
  by (simp add: incCoarseX_def)

lemma status_incY: "status (incY p) = status p"
  by (simp add: incY_def Let_def)

lemma renderPixel_status:
  "status (renderPixel p x y) =
     (if sprite_pixel p \<noteq> 0 \<and> fst (bg_pixel p) \<noteq> 0 \<and> spriteIsZero p \<and> x < 255
      then status p OR 0x40 else status p)"
  by (simp add: renderPixel_def Let_def)

lemma step_dot_status:
  "status (step_dot c re p) =
     (if re then status (renderPixel (step_fetch c p) (cycle p - 1) (scanline p)) else status p)"
proof -
  have k: "keeps_vblank p (step_fetch c p)" by (rule kv_fetch)
  then have f: "cycle (step_fetch c p) = cycle p" "scanline (step_fetch c p) = scanline p"
    by (simp_all add: keeps_vblank_def)
  show ?thesis
    by (simp add: step_dot_def Let_def f status_incCoarseX status_stepShifters status_step_fetch)
qed

lemma step_dot_counters [simp]:
  "cycle (step_dot c re p) = cycle p" "scanline (step_dot c re p) = scanline p"
  using kv_step_dot [of p c re] by (simp_all add: keeps_vblank_def)

text \<open>The status register after a dot of a visible line that draws a pixel.\<close>

lemma visible_dot_status:
  assumes "0 \<le> scanline p" "scanline p \<le> 239" "1 \<le> cycle p" "cycle p \<le> 256"
  shows "status (PPU_step c p) =
     (if renderingEnabled p
      then status (renderPixel (step_fetch c p) (cycle p - 1) (scanline p)) else status p)"
proof -
  let ?re = "renderingEnabled p"
  let ?d = "step_dot c ?re p"
  have c0: "step_clear p = p" using assms by (simp add: step_clear_def)
  have kd: "keeps_vblank p ?d" by (rule kv_step_dot)
  let ?v = "if cycle p = 256 then (if ?re then incY ?d else ?d) else ?d"
  have v: "step_visible c ?re p = ?v"
    using assms by (simp add: step_visible_def Let_def)
  have kv: "keeps_vblank p ?v" using kd kv_incY [of ?d] by (auto intro: kv_trans)
  then have g: "scanline ?v = scanline p" "cycle ?v = cycle p" by (simp_all add: keeps_vblank_def)
  have sv: "status ?v = status ?d" by (simp add: status_incY)
  have pr: "step_prerender ?re ?v = ?v" using assms g by (simp add: step_prerender_def)
  have vb: "step_vblank ?v = ?v" using assms g by (simp add: step_vblank_def)
  have "PPU_step c p = step_advance ?v"
    by (simp only: PPU_step_def Let_def c0 v pr vb)
  then have "status (PPU_step c p) = status ?d"
    using sv by (simp add: step_advance_flags)
  then show ?thesis by (simp add: step_dot_status)
qed

lemma bg_pixel_enabled: "fst (bg_pixel p) \<noteq> 0 \<Longrightarrow> ppu_mask p AND 0x08 \<noteq> 0"
  by (simp add: bg_pixel_def split: if_splits)

lemma sprite_pixel_enabled: "sprite_pixel p \<noteq> 0 \<Longrightarrow> ppu_mask p AND 0x10 \<noteq> 0"
  by (simp add: sprite_pixel_def sprite_hit_slot_def split: if_splits)

lemma spriteIsZero_iff: "spriteIsZero p = (sprite_hit_slot p = Some 0 \<and> spriteZeroInLine p)"
  by (auto simp add: spriteIsZero_def split: option.splits)


lemma and_18_8: "m AND 0x18 = 0 \<Longrightarrow> m AND 0x08 = (0::int)"
proof -
  assume "m AND 0x18 = 0"
  then have "(m AND 0x18) AND 0x08 = 0" by simp
  then show ?thesis by (simp add: and.assoc)
qed

text \<open>The status register after any dot that draws one of the pixels 0 to 254 of a line.\<close>

lemma pixel_dot_status:
  assumes "0 \<le> scanline p" "scanline p \<le> 239" "1 \<le> cycle p" "cycle p - 1 < 255"
  shows "status (PPU_step c p) =
       (if fst (bg_pixel (step_fetch c p)) \<noteq> 0 \<and> sprite_pixel (step_fetch c p) \<noteq> 0
           \<and> sprite_hit_slot (step_fetch c p) = Some 0 \<and> spriteZeroInLine (step_fetch c p)
           \<and> ppu_mask p AND 0x08 \<noteq> 0 \<and> ppu_mask p AND 0x10 \<noteq> 0
        then status p OR 0x40 else status p)"
proof -
  let ?q = "step_fetch c p"
  have m: "ppu_mask ?q = ppu_mask p" using kv_fetch [of p c] by (simp add: keeps_vblank_def)
  have c256: "cycle p \<le> 256" using assms(4) by simp
  note V = visible_dot_status [OF assms(1-3) c256, of c]
  show ?thesis
  proof (cases "renderingEnabled p")
    case False
    then have "ppu_mask p AND 0x08 = 0" by (simp add: renderingEnabled_def and_18_8)
    with False V show ?thesis by simp
  next
    case True
    have b: "fst (bg_pixel ?q) \<noteq> 0 \<longrightarrow> ppu_mask p AND 0x08 \<noteq> 0"
      using bg_pixel_enabled [of ?q] m by simp
    have s: "sprite_pixel ?q \<noteq> 0 \<longrightarrow> ppu_mask p AND 0x10 \<noteq> 0"
      using sprite_pixel_enabled [of ?q] m by simp
    from True V have "status (PPU_step c p) = status (renderPixel ?q (cycle p - 1) (scanline p))"
      by simp
    then show ?thesis
      using assms(4) b s
      by (auto simp add: renderPixel_status status_step_fetch spriteIsZero_iff)
  qed
qed

text \<open>
  C1, as the code has it. For every dot that draws one of the pixels 0 to 254 of a visible
  line, with the pipeline registers as the fetch of that dot leaves them: the dot ORs bit 6
  into the status register exactly when the background pixel and the sprite pixel are both
  non-zero, the contributing sprite is in slot 0 and \<open>spriteZeroInLine\<close> is set, and bits 3
  and 4 of \<open>mask\<close> (background and sprites shown) are set; otherwise it leaves the status
  register as it is. Bits 1 and 2 of \<open>mask\<close> and the position of the pixel among the
  leftmost eight play no part.
\<close>

theorem sprite0_hit_without_left_gate:
  assumes "0 \<le> scanline p" "scanline p \<le> 239" "1 \<le> cycle p" "cycle p - 1 < 255"
  shows "status (PPU_step c p) =
       (if fst (bg_pixel (step_fetch c p)) \<noteq> 0 \<and> sprite_pixel (step_fetch c p) \<noteq> 0
           \<and> sprite_hit_slot (step_fetch c p) = Some 0 \<and> spriteZeroInLine (step_fetch c p)
           \<and> ppu_mask p AND 0x08 \<noteq> 0 \<and> ppu_mask p AND 0x10 \<noteq> 0
        then status p OR 0x40 else status p)"
  using assms by (rule pixel_dot_status)

text \<open>The example: sprite 0 and the background both opaque at pixel 3, left columns hidden.\<close>

lemma example_fetch: "step_fetch c left_edge_hit_state = left_edge_hit_state"
  by (simp add: step_fetch_def left_edge_hit_state_def)

lemma example_pixels:
  "fst (bg_pixel left_edge_hit_state) = 1 \<and> sprite_hit_slot left_edge_hit_state = Some 0
   \<and> sprite_pixel left_edge_hit_state = 1 \<and> spriteZeroInLine left_edge_hit_state"
  by (simp add: left_edge_hit_state_def PPU_new_def bg_pixel_def sprite_pixel_def
      sprite_hit_slot_def sprite_px_def js_shr_def upt_conv_Cons)

lemma example_counters:
  "scanline left_edge_hit_state = 0 \<and> cycle left_edge_hit_state = 4
   \<and> ppu_mask left_edge_hit_state = 0x18 \<and> status left_edge_hit_state = 0"
  by (simp add: left_edge_hit_state_def PPU_new_def)

text \<open>
  The claim with the gate of the leftmost eight pixels fails: at pixel 3, with bits 1 and 2
  of \<open>mask\<close> clear, the dot sets bit 6 although the condition of the specification is
  false.
\<close>

theorem sprite0_hit_left_gate_counterexample:
  "cycle left_edge_hit_state - 1 = 3
   \<and> status left_edge_hit_state AND 0x40 = 0
   \<and> status (PPU_step (cart_of Mapper0 []) left_edge_hit_state) AND 0x40 \<noteq> 0
   \<and> left8_suppressed (step_fetch (cart_of Mapper0 []) left_edge_hit_state) 3
   \<and> \<not> spec_sprite0_hit (step_fetch (cart_of Mapper0 []) left_edge_hit_state) 3"
proof -
  have "status (PPU_step (cart_of Mapper0 []) left_edge_hit_state) = 0x40"
    using pixel_dot_status [of left_edge_hit_state "cart_of Mapper0 []"]
    by (simp add: example_fetch example_pixels example_counters)
  then show ?thesis
    by (simp add: example_fetch example_counters spec_sprite0_hit_def left8_suppressed_def)
qed

theorem sprite0_hit_without_left_gate_witness:
  "0 \<le> scanline left_edge_hit_state \<and> scanline left_edge_hit_state \<le> 239
   \<and> 1 \<le> cycle left_edge_hit_state \<and> cycle left_edge_hit_state - 1 < 255
   \<and> status (PPU_step (cart_of Mapper0 []) left_edge_hit_state) = 0x40"
  using sprite0_hit_without_left_gate [of left_edge_hit_state "cart_of Mapper0 []"]
  by (simp add: example_fetch example_pixels example_counters)

subsection \<open>Opcodes without an entry\<close>

lemma opcode_02: "OPCODES (Num 0x02) = None"
  by (simp add: OPCODES_def opcode_list_def)

text \<open>
  C2, as the code has it. When the CPU is not stalled and the value it fetches at \<open>pc\<close>
  has no entry in the opcode table, \<open>step\<close> returns 1 and does nothing but the fetch:
  the machine is as the bus read leaves it, and of the CPU only \<open>pc\<close> has changed, by one;
  the cycle counter is not advanced.
\<close>

theorem unknown_opcode_returns_one:
  assumes "stall (cpu s) \<le> 0" and "OPCODES (fst (fetch_pc s)) = None"
  shows "CPU_step s = (Num 1, snd (fetch_pc s))
       \<and> cpu (snd (CPU_step s)) = (cpu s)\<lparr>reg_pc := js_add (reg_pc (cpu s)) (Num 1)\<rparr>"
proof -
  have "CPU_step s = (Num 1, snd (fetch_pc s))"
    using assms by (simp add: CPU_step_def case_prod_beta)
  then show ?thesis by (simp add: fetch_pc_cpu)
qed



text \<open>An opcode without an entry, at \<open>$8000\<close> of a cartridge, with the CPU about to fetch it.\<close>

lemma example_unknown_fetch: "fst (fetch_pc (machine_at [0x02])) = Num 0x02"
  by (simp add: fetch_pc_def CPU_read_def cpuRead_def cart_read_def ta_get_def nes_new_def
      cart_of_def upd_cpu_def js_add_def Let_def machine_at_def)

text \<open>The claim of a cost of 2 fails: for the byte \<open>$02\<close> the step returns 1.\<close>

theorem unknown_opcode_two_cycles_counterexample:
  "OPCODES (Num 0x02) = None
   \<and> fst (CPU_step (machine_at [0x02])) = Num 1
   \<and> fst (CPU_step (machine_at [0x02])) \<noteq> Num 2
   \<and> cycles (cpu (snd (CPU_step (machine_at [0x02])))) = cycles (cpu (machine_at [0x02]))"
  by (simp add: CPU_step_def case_prod_beta example_unknown_fetch opcode_02 machine_at_cpu
      fetch_pc_cpu)

theorem unknown_opcode_returns_one_witness:
  "stall (cpu (machine_at [0x02])) \<le> 0
   \<and> OPCODES (fst (fetch_pc (machine_at [0x02]))) = None
   \<and> fst (CPU_step (machine_at [0x02])) = Num 1
   \<and> reg_pc (cpu (snd (CPU_step (machine_at [0x02])))) = Num 0x8001"
  using unknown_opcode_returns_one [of "machine_at [0x02]"]
  by (simp add: example_unknown_fetch opcode_02 machine_at_cpu js_add_def fetch_pc_cpu)

subsection \<open>OAM DMA through \<open>$4014\<close>\<close>

text \<open>A read of a PPU register, and so a read on the bus, leaves the OAM and \<open>oamaddr\<close>.\<close>

lemma PPU_read_oam:
  "oam (snd (PPU_read c p a)) = oam p \<and> oamaddr (snd (PPU_read c p a)) = oamaddr p"
  by (simp add: PPU_read_def Let_def)

lemma cpuRead_oam:
  "oam (ppu (snd (cpuRead s a))) = oam (ppu s)
   \<and> oamaddr (ppu (snd (cpuRead s a))) = oamaddr (ppu s)"
  by (simp add: cpuRead_def Let_def PPU_read_oam case_prod_beta split: option.splits)

lemma dma_reads_Suc: "dma_reads page s (Suc n) = dma_fetch page (dma_reads page s n) n"
  by (simp add: dma_reads_def)

lemma dma_fetch_parts:
  "fst (dma_fetch page bs i) = ta_set (fst bs) (int i) (to_int (fst (cpuRead (snd bs) (page + int i))))
   \<and> snd (dma_fetch page bs i) = snd (cpuRead (snd bs) (page + int i))"
  by (simp add: dma_fetch_def case_prod_beta)

text \<open>
  The read loop after \<open>n\<close> rounds: the buffer keeps its 256 cells, cell \<open>i\<close> holds the
  byte of the \<open>i\<close>-th read, and the CPU and the OAM are as before.
\<close>

lemma dma_reads_prefix:
  assumes "n \<le> 256"
  shows "length (fst (dma_reads page s n)) = 256
       \<and> (\<forall>i<n. fst (dma_reads page s n) ! i
              = to_int (fst (cpuRead (snd (dma_reads page s i)) (page + int i))) mod 256)
       \<and> cpu (snd (dma_reads page s n)) = cpu s
       \<and> oam (ppu (snd (dma_reads page s n))) = oam (ppu s)
       \<and> oamaddr (ppu (snd (dma_reads page s n))) = oamaddr (ppu s)"
  using assms
proof (induction n)
  case 0
  show ?case by (simp add: dma_reads_def)
next
  case (Suc n)
  let ?b = "dma_reads page s n"
  let ?r = "cpuRead (snd ?b) (page + int n)"
  from Suc have len: "length (fst ?b) = 256"
    and old: "\<forall>i<n. fst ?b ! i
                 = to_int (fst (cpuRead (snd (dma_reads page s i)) (page + int i))) mod 256"
    and inv: "cpu (snd ?b) = cpu s" "oam (ppu (snd ?b)) = oam (ppu s)"
             "oamaddr (ppu (snd ?b)) = oamaddr (ppu s)"
    by simp_all
  have n: "n < 256" using Suc.prems by simp
  have f: "fst (dma_reads page s (Suc n)) = (fst ?b)[n := to_int (fst ?r) mod 256]"
    using len n by (simp add: dma_reads_Suc dma_fetch_parts ta_set_def)
  have g: "snd (dma_reads page s (Suc n)) = snd ?r"
    by (simp add: dma_reads_Suc dma_fetch_parts)
  have cells: "fst (dma_reads page s (Suc n)) ! i
                 = to_int (fst (cpuRead (snd (dma_reads page s i)) (page + int i))) mod 256"
    if "i < Suc n" for i
  proof (cases "i = n")
    case True
    then show ?thesis using len n by (simp add: f)
  next
    case False
    with that have "i < n" by simp
    then show ?thesis using old by (simp add: f)
  qed
  show ?case
    using len cells inv by (simp add: f g cpuRead_cpu cpuRead_oam)
qed


lemma cpuWrite_4014: "cpuWrite s 0x4014 v = oam_dma s (v AND 0xFF)"
  by (simp add: cpuWrite_def)

text \<open>What the DMA leaves in the OAM, and that it leaves the CPU alone.\<close>

lemma oam_dma_cells:
  assumes "length (oam (ppu s)) = 256"
  shows "(\<forall>i<256. oam (ppu (oam_dma s b)) ! nat ((oamaddr (ppu s) + int i) mod 256)
            = to_int (fst (cpuRead (snd (dma_reads (push_bit 8 b) s i)) (push_bit 8 b + int i)))
                mod 256)
       \<and> oamaddr (ppu (oam_dma s b)) = oamaddr (ppu s)
       \<and> cpu (oam_dma s b) = cpu s"
proof -
  let ?page = "push_bit 8 b"
  let ?buf = "fst (dma_reads ?page s 256)"
  let ?s = "snd (dma_reads ?page s 256)"
  note P = dma_reads_prefix [of 256 ?page s, simplified]
  have e: "oam_dma s b = ?s\<lparr>ppu := doDMA (ppu ?s) ?buf\<rparr>"
    by (simp add: oam_dma_def Let_def case_prod_beta)
  have len: "length (oam (ppu ?s)) = 256" using P assms by simp
  note D = doDMA_prefix [OF len, of 256 "ppu ?s" ?buf, simplified]
  have idx: "doDMA_index (ppu ?s) i = (oamaddr (ppu s) + int i) mod 256" for i
    using P by (simp add: doDMA_index_mod)
  have cell: "oam (ppu (oam_dma s b)) ! nat ((oamaddr (ppu s) + int i) mod 256)
            = to_int (fst (cpuRead (snd (dma_reads ?page s i)) (?page + int i))) mod 256"
    if i: "i < 256" for i
  proof -
    have "oam (ppu (oam_dma s b)) ! nat (doDMA_index (ppu ?s) i)
            = to_int (ta_get ?buf (int i)) mod 256"
      using D i by (simp add: e doDMA_def)
    moreover have "to_int (ta_get ?buf (int i)) = ?buf ! i"
      using P i by (simp add: ta_get_def)
    moreover have "?buf ! i = to_int (fst (cpuRead (snd (dma_reads ?page s i)) (?page + int i))) mod 256"
      using P i by simp
    ultimately show ?thesis by (simp add: idx)
  qed
  have "oamaddr (ppu (oam_dma s b)) = oamaddr (ppu s)" using P by (simp add: e doDMA_def)
  moreover have "cpu (oam_dma s b) = cpu s" using P by (simp add: e)
  ultimately show ?thesis using cell by blast
qed

text \<open>From a page of RAM the reads change nothing.\<close>

lemma dma_reads_ram:
  assumes "0 \<le> b" "b < 0x20" "length (ram s) = 0x800" "n \<le> 256"
  shows "snd (dma_reads (push_bit 8 b) s n) = s"
  using assms(4)
proof (induction n)
  case 0
  show ?case by (simp add: dma_reads_def)
next
  case (Suc n)
  then have ih: "snd (dma_reads (push_bit 8 b) s n) = s" and n: "n < 256" by simp_all
  have "0 \<le> push_bit 8 b + int n \<and> push_bit 8 b + int n < 0x2000"
    using assms(1,2) n by (simp add: push_bit_eq_mult)
  then have "cpuRead s (push_bit 8 b + int n)
               = (Num (ram s ! nat ((push_bit 8 b + int n) mod 2048)), s)"
    using assms(3) by (simp add: cpuRead_ram)
  then show ?case by (simp add: dma_reads_Suc dma_fetch_parts ih)
qed


text \<open>
  C3, as the code has it. With an OAM of 256 cells, a CPU write of \<open>v\<close> to \<open>$4014\<close> makes
  256 reads through \<open>cpuRead\<close> at \<open>page + i\<close>, where \<open>page\<close> is \<open>(v & 0xFF) << 8\<close>, in
  order, and then leaves the byte of the \<open>i\<close>-th read in the OAM cell
  \<open>(oamaddr + i) mod 256\<close>; \<open>oamaddr\<close> is unchanged, and so is the whole CPU: its cycle
  counter and its stall counter are not touched, the write costs nothing. When the page
  lies in RAM (\<open>v < $20\<close>) the reads change nothing, the cells receive the bytes of RAM at
  \<open>v * 256 + i\<close>, and nothing but the OAM changes.
\<close>

theorem oam_dma_copies_without_stall:
  fixes s :: "('c, 'a) nes" and v :: int
  defines "page \<equiv> push_bit 8 (v AND 0xFF)"
  defines "s' \<equiv> cpuWrite s 0x4014 v"
  assumes "length (oam (ppu s)) = 256"
  shows "(\<forall>i<256. oam (ppu s') ! nat ((oamaddr (ppu s) + int i) mod 256)
            = to_int (fst (cpuRead (snd (dma_reads page s i)) (page + int i))) mod 256)
       \<and> oamaddr (ppu s') = oamaddr (ppu s)
       \<and> cpu s' = cpu s
       \<and> (0 \<le> v \<and> v < 0x20 \<and> length (ram s) = 0x800 \<longrightarrow>
            s' = s\<lparr>ppu := (ppu s)\<lparr>oam := oam (ppu s')\<rparr>\<rparr>
            \<and> (\<forall>i<256. oam (ppu s') ! nat ((oamaddr (ppu s) + int i) mod 256)
                   = ram s ! nat ((v * 256 + int i) mod 2048) mod 256))"
proof -
  note C = oam_dma_cells [OF assms(3), of "v AND 0xFF", folded page_def]
  have e: "s' = oam_dma s (v AND 0xFF)" by (simp add: s'_def cpuWrite_4014)
  have ramcase: "s' = s\<lparr>ppu := (ppu s)\<lparr>oam := oam (ppu s')\<rparr>\<rparr>
            \<and> (\<forall>i<256. oam (ppu s') ! nat ((oamaddr (ppu s) + int i) mod 256)
                   = ram s ! nat ((v * 256 + int i) mod 2048) mod 256)"
    if h: "0 \<le> v \<and> v < 0x20 \<and> length (ram s) = 0x800"
  proof -
    from h have b: "v AND 0xFF = v" by (simp add: and_255_mod)
    then have pg: "page = v * 256" by (simp add: page_def push_bit_eq_mult)
    have same: "snd (dma_reads page s n) = s" if "n \<le> 256" for n
      using dma_reads_ram [of v s n] h that by (simp add: page_def b)
    have rd: "cpuRead s (page + int i) = (Num (ram s ! nat ((v * 256 + int i) mod 2048)), s)"
      if "i < 256" for i
    proof -
      have "0 \<le> page + int i \<and> page + int i < 0x2000" using h that by (simp add: pg)
      then show ?thesis using h by (simp add: cpuRead_ram pg)
    qed
    have fr: "s' = s\<lparr>ppu := (ppu s)\<lparr>oam := oam (ppu s')\<rparr>\<rparr>"
    proof -
      have "s' = (snd (dma_reads page s 256))
                   \<lparr>ppu := doDMA (ppu (snd (dma_reads page s 256))) (fst (dma_reads page s 256))\<rparr>"
        unfolding e oam_dma_def Let_def case_prod_beta page_def ..
      then have "s' = s\<lparr>ppu := doDMA (ppu s) (fst (dma_reads page s 256))\<rparr>"
        by (simp only: same [of 256, simplified])
      then show ?thesis by (simp add: doDMA_def)
    qed
    have "oam (ppu s') ! nat ((oamaddr (ppu s) + int i) mod 256)
            = ram s ! nat ((v * 256 + int i) mod 2048) mod 256" if i: "i < 256" for i
    proof -
      from i have "i \<le> 256" by simp
      then have "snd (dma_reads page s i) = s" by (rule same)
      then show ?thesis using C i rd [OF i] by (simp add: e)
    qed
    with fr show ?thesis by blast
  qed
  show ?thesis using C ramcase by (simp add: e)
qed


text \<open>
  The example: \<open>STA $4014\<close> at \<open>$8000\<close> with \<open>A = 2\<close>, and two bytes in page 2 of RAM.
\<close>

lemma dma_machine_eq:
  "dma_machine =
     (machine_at [0x8D, 0x14, 0x40])
       \<lparr>cpu := CPU_new\<lparr>reg_pc := Num 0x8000, reg_a := Num 0x02\<rparr>,
        ram := (replicate 2048 0)[0x200 := 0x5A, 0x203 := 0x77]\<rparr>"
  by (simp add: dma_machine_def ram_write machine_at_def nes_new_def ta_set_def)

lemma dma_machine_parts:
  "stall (cpu dma_machine) = 0" "cycles (cpu dma_machine) = Num 0"
  "reg_pc (cpu dma_machine) = Num 0x8000" "reg_a (cpu dma_machine) = Num 0x02"
  "length (oam (ppu dma_machine)) = 256" "oamaddr (ppu dma_machine) = 0"
  "length (ram dma_machine) = 0x800"
  "ram dma_machine ! 0x200 = 0x5A" "ram dma_machine ! 0x203 = 0x77"
  "3 \<le> length (prg (cart dma_machine))" "prg (cart dma_machine) ! 0 = 0x8D"
  "prg (cart dma_machine) ! 1 = 0x14" "prg (cart dma_machine) ! 2 = 0x40"
  by (simp_all add: dma_machine_eq machine_at_def nes_new_def cart_of_def CPU_new_def
      PPU_new_def)

lemma opcode_8D: "OPCODES (Num 0x8D) = Some \<lparr>mode = ABS, ins = STA, cyc = 4\<rparr>"
  by (simp add: OPCODES_def opcode_list_def)

text \<open>One step over \<open>STA $4014\<close>: the stall counter of the CPU is as before.\<close>

lemma sta_4014_step_stall:
  fixes s :: "('c, 'a) nes"
  assumes pc: "reg_pc (cpu s) = Num 0x8000" and st: "stall (cpu s) = 0"
    and len: "3 \<le> length (prg (cart s))"
    and b0: "prg (cart s) ! 0 = 0x8D" and b1: "prg (cart s) ! 1 = 0x14"
    and b2: "prg (cart s) ! 2 = 0x40"
    and oamlen: "length (oam (ppu s)) = 256"
  shows "stall (cpu (snd (CPU_step s))) = 0"
proof -
  have l0: "(0x8000::int) - 0x8000 < int (length (prg (cart s)))"
    and l1: "(0x8001::int) - 0x8000 < int (length (prg (cart s)))"
    and l2: "(0x8002::int) - 0x8000 < int (length (prg (cart s)))"
    using len by auto
  define s1 where "s1 = s\<lparr>cpu := (cpu s)\<lparr>reg_pc := Num 0x8001\<rparr>\<rparr>"
  have f1: "fetch_pc s = (Num 0x8D, s1)"
    using fetch_pc_prg [OF pc _ _ l0] b0 by (simp add: s1_def)
  define s2 where "s2 = s1\<lparr>cpu := (cpu s1)\<lparr>addrMode := Some ABS, pageCross := 0\<rparr>\<rparr>"
  have q2: "reg_pc (cpu s2) = Num 0x8001" "cart s2 = cart s"
    by (simp_all add: s2_def s1_def)
  define s3 where "s3 = s2\<lparr>cpu := (cpu s2)\<lparr>reg_pc := Num 0x8002\<rparr>\<rparr>"
  have f2: "fetch_pc s2 = (Num 0x14, s3)"
    using fetch_pc_prg [OF q2(1) _ _ l1 [folded q2(2)]] b1 by (simp add: s3_def q2)
  have q3: "reg_pc (cpu s3) = Num 0x8002" "cart s3 = cart s"
    by (simp_all add: s3_def q2)
  define s4 where "s4 = s3\<lparr>cpu := (cpu s3)\<lparr>reg_pc := Num 0x8003\<rparr>\<rparr>"
  have f3: "fetch_pc s3 = (Num 0x40, s4)"
    using fetch_pc_prg [OF q3(1) _ _ l2 [folded q3(2)]] b2 by (simp add: s4_def q3)
  have q4: "stall (cpu s4) = 0" "length (oam (ppu s4)) = 256"
    using st oamlen by (simp_all add: s4_def s3_def s2_def s1_def)
  have fa: "fetchAddr s2 ABS = (Num 0x4014, s4)"
    by (simp add: fetchAddr_def am_abs_def f2 f3)
  define w where "w = cpuWrite s4 0x4014 (to_int (reg_a (cpu s4)) AND 0xFF)"
  have ex: "execute s4 STA (Num 0x4014) = w"
    by (simp add: execute_def CPU_write_def w_def)
  have "cpu w = cpu s4"
    using oam_dma_cells [OF q4(2)] by (simp add: w_def cpuWrite_4014)
  then have sw: "stall (cpu w) = 0" using q4(1) by simp
  show ?thesis
    using st sw
    by (simp add: CPU_step_def f1 opcode_8D upd_cpu_def fa [unfolded s2_def] ex Let_def)
qed

text \<open>
  The claim of a cost of 513 or 514 cycles fails: the write leaves the stall counter at 0
  and the cycle counter as it was, and after the step that runs \<open>STA $4014\<close> the CPU is
  not stalled.
\<close>

theorem oam_dma_cost_counterexample:
  "stall (cpu (cpuWrite dma_machine 0x4014 0x02)) = 0
   \<and> cycles (cpu (cpuWrite dma_machine 0x4014 0x02)) = cycles (cpu dma_machine)
   \<and> stall (cpu (snd (CPU_step dma_machine))) = 0"
proof -
  have "cpu (cpuWrite dma_machine 0x4014 0x02) = cpu dma_machine"
    using oam_dma_cells [OF dma_machine_parts(5)] by (simp add: cpuWrite_4014)
  moreover have "stall (cpu (snd (CPU_step dma_machine))) = 0"
    by (rule sta_4014_step_stall [OF dma_machine_parts(3,1,10,11,12,13,5)])
  ultimately show ?thesis by (simp add: dma_machine_parts)
qed

theorem oam_dma_copies_without_stall_witness:
  "length (oam (ppu dma_machine)) = 256
   \<and> oam (ppu (cpuWrite dma_machine 0x4014 0x02)) ! 0 = 0x5A
   \<and> oam (ppu (cpuWrite dma_machine 0x4014 0x02)) ! 3 = 0x77
   \<and> cpu (cpuWrite dma_machine 0x4014 0x02) = cpu dma_machine"
proof -
  note T = oam_dma_copies_without_stall [OF dma_machine_parts(5), of "0x02"]
  have c: "cpu (cpuWrite dma_machine 0x4014 0x02) = cpu dma_machine"
    using T by blast
  have h: "(0::int) \<le> 0x02 \<and> (0x02::int) < 0x20 \<and> length (ram dma_machine) = 0x800"
    by (simp add: dma_machine_parts)
  note A = T [THEN conjunct2, THEN conjunct2, THEN conjunct2, THEN mp, OF h, THEN conjunct2]
  have a0: "oam (ppu (cpuWrite dma_machine 0x4014 0x02)) ! 0 = 0x5A"
    using A [THEN spec, of 0] by (simp add: dma_machine_parts)
  have a3: "oam (ppu (cpuWrite dma_machine 0x4014 0x02)) ! 3 = 0x77"
    using A [THEN spec, of 3] by (simp add: dma_machine_parts)
  show ?thesis using c a0 a3 dma_machine_parts(5) by simp
qed

subsection \<open>Reads through \<open>$2007\<close>\<close>

lemma v14_range: "0 \<le> (a::int) AND 0x3FFF \<and> a AND 0x3FFF \<le> 0x3FFF"
proof -
  have "0 \<le> a mod 16384 \<and> a mod 16384 < 16384" by simp
  then show ?thesis unfolding and_3FFF_mod by linarith
qed

lemma ppuRead_palette:
  assumes "0x3F00 \<le> a" "a \<le> 0x3FFF"
  shows "ppuRead c p a = Num (to_int (ta_get (palette p) (palette_index a)) AND 0x3F)"
proof -
  from assms have "a AND 0x3FFF = a" by (simp add: and_3FFF_mod)
  with assms show ?thesis by (simp add: ppuRead_def Let_def)
qed

lemma ppuRead_nametable:
  assumes "0x2000 \<le> a" "a < 0x3F00"
  shows "ppuRead c p a = ta_get (vram p) (ntIndex p a AND 0x7FF)"
proof -
  from assms have "a AND 0x3FFF = a" by (simp add: and_3FFF_mod)
  with assms show ?thesis by (simp add: ppuRead_def Let_def)
qed

text \<open>
  C4. For every PPU state and every register address that selects \<open>$2007\<close>, with
  \<open>a\<close> the low 14 bits of \<open>v\<close>: when \<open>a < $3F00\<close> the read returns the buffered byte
  and the buffer becomes \<open>ppuRead(a)\<close>; when \<open>a \<ge> $3F00\<close> the read returns the palette
  byte \<open>ppuRead(a)\<close> itself and the buffer becomes \<open>ppuRead(a - $1000)\<close>, a nametable
  byte. In both cases \<open>v\<close> becomes \<open>v + 32\<close> when bit 2 of \<open>ctrl\<close> is set and
  \<open>v + 1\<close> otherwise, kept to 15 bits, and nothing else of the PPU changes.
\<close>

theorem ppudata_read_buffered:
  assumes "addr AND 7 = 7"
  shows "(ppu_v p AND 0x3FFF < 0x3F00 \<longrightarrow>
            fst (PPU_read c p addr) = buffered p
            \<and> buffered (snd (PPU_read c p addr)) = ppuRead c p (ppu_v p AND 0x3FFF))
       \<and> (ppu_v p AND 0x3FFF \<ge> 0x3F00 \<longrightarrow>
            fst (PPU_read c p addr) = ppuRead c p (ppu_v p AND 0x3FFF)
            \<and> fst (PPU_read c p addr)
                = Num (to_int (ta_get (palette p) (palette_index (ppu_v p AND 0x3FFF))) AND 0x3F)
            \<and> buffered (snd (PPU_read c p addr)) = ppuRead c p ((ppu_v p AND 0x3FFF) - 0x1000)
            \<and> buffered (snd (PPU_read c p addr))
                = ta_get (vram p) (ntIndex p ((ppu_v p AND 0x3FFF) - 0x1000) AND 0x7FF))
       \<and> ppu_v (snd (PPU_read c p addr))
            = (ppu_v p + (if ctrl p AND 0x04 \<noteq> 0 then 32 else 1)) mod 0x8000
       \<and> snd (PPU_read c p addr)
            = p\<lparr>buffered := buffered (snd (PPU_read c p addr)),
                 ppu_v := ppu_v (snd (PPU_read c p addr))\<rparr>"
proof (cases "ppu_v p AND 0x3FFF \<ge> 0x3F00")
  case True
  let ?a = "ppu_v p AND 0x3FFF"
  have hi: "?a \<le> 0x3FFF" using v14_range [of "ppu_v p"] by simp
  have r1: "ppuRead c p ?a = Num (to_int (ta_get (palette p) (palette_index ?a)) AND 0x3F)"
    using True hi by (rule ppuRead_palette)
  have r2: "ppuRead c p (?a - 0x1000) = ta_get (vram p) (ntIndex p (?a - 0x1000) AND 0x7FF)"
    using True hi by (intro ppuRead_nametable) linarith+
  show ?thesis
    using True assms r1 r2
    by (simp add: PPU_read_def Let_def v_increment_def and_7FFF_mod)
next
  case False
  then show ?thesis
    using assms by (simp add: PPU_read_def Let_def v_increment_def and_7FFF_mod)
qed


theorem ppudata_read_buffered_witness:
  "(0x2007 :: int) AND 7 = 7
   \<and> fst (PPU_read (cart_of Mapper0 [])
           (PPU_new (cart_of Mapper0 [])\<lparr>ppu_v := 0x3F05, ctrl := 0x04, buffered := Num 0x77,
              palette := (replicate 32 0)[5 := 0x21]\<rparr>) 0x2007) = Num 0x21
   \<and> ppu_v (snd (PPU_read (cart_of Mapper0 [])
           (PPU_new (cart_of Mapper0 [])\<lparr>ppu_v := 0x3F05, ctrl := 0x04, buffered := Num 0x77,
              palette := (replicate 32 0)[5 := 0x21]\<rparr>) 0x2007)) = 0x3F25
   \<and> fst (PPU_read (cart_of Mapper0 [])
           (PPU_new (cart_of Mapper0 [])\<lparr>ppu_v := 0x2400, buffered := Num 0x77\<rparr>) 0x2007)
       = Num 0x77
   \<and> ppu_v (snd (PPU_read (cart_of Mapper0 [])
           (PPU_new (cart_of Mapper0 [])\<lparr>ppu_v := 0x2400, buffered := Num 0x77\<rparr>) 0x2007))
       = 0x2401"
proof -
  let ?c = "cart_of Mapper0 []"
  let ?p = "PPU_new ?c\<lparr>ppu_v := 0x3F05, ctrl := 0x04, buffered := Num 0x77,
              palette := (replicate 32 0)[5 := 0x21]\<rparr>"
  let ?q = "PPU_new ?c\<lparr>ppu_v := 0x2400, buffered := Num 0x77\<rparr>"
  have a: "(0x2007 :: int) AND 7 = 7" by simp
  have i: "palette_index 0x3F05 = 5" by (simp add: palette_index_def)
  note P = ppudata_read_buffered [OF a, of ?p ?c]
  note Q = ppudata_read_buffered [OF a, of ?q ?c]
  have p1: "fst (PPU_read ?c ?p 0x2007) = Num 0x21"
    using P [THEN conjunct2, THEN conjunct1, THEN mp, THEN conjunct2, THEN conjunct1]
    by (simp add: ta_get_def i)
  have p2: "ppu_v (snd (PPU_read ?c ?p 0x2007)) = 0x3F25"
    using P [THEN conjunct2, THEN conjunct2, THEN conjunct1] by simp
  have q1: "fst (PPU_read ?c ?q 0x2007) = Num 0x77"
    using Q [THEN conjunct1, THEN mp, THEN conjunct1] by simp
  have q2: "ppu_v (snd (PPU_read ?c ?q 0x2007)) = 0x2401"
    using Q [THEN conjunct2, THEN conjunct2, THEN conjunct1] by (simp add: PPU_new_def)
  show ?thesis using a p1 p2 q1 q2 by simp
qed

subsection \<open>The palette and its mirrors\<close>

text \<open>The palette index of an address, by its offset in the 32-byte window.\<close>

lemma palette_index_small:
  "\<forall>m\<in>set [0..31]. palette_index (0x3F00 + m) =
      (if m mod 4 = 0 \<and> 16 \<le> m then m - 16 else m)"
  by code_simp

lemma palette_index_window: "palette_index a = palette_index (0x3F00 + a mod 32)"
proof -
  have "(504 * 32 + a mod 32) mod 32 = a mod 32"
    by (simp only: mod_mult_self3 mod_mod_trivial)
  then have "(0x3F00 + a mod 32) mod 32 = a mod 32" by simp
  then show ?thesis by (simp add: palette_index_def and_1F_mod)
qed

lemma palette_index_eq:
  "palette_index a = (if a mod 4 = 0 \<and> 16 \<le> a mod 32 then a mod 32 - 16 else a mod 32)"
proof -
  have "a mod 32 \<in> set [0..31]" by simp
  with palette_index_small
  have "palette_index (0x3F00 + a mod 32) =
      (if a mod 32 mod 4 = 0 \<and> 16 \<le> a mod 32 then a mod 32 - 16 else a mod 32)" by blast
  moreover have "a mod 32 mod 4 = a mod 4" by (simp add: mod_mod_cancel)
  ultimately show ?thesis using palette_index_window [of a] by simp
qed

lemma palette_index_range: "0 \<le> palette_index a \<and> palette_index a < 32"
proof -
  have "0 \<le> a mod 32 \<and> a mod 32 < 32" by simp
  then show ?thesis unfolding palette_index_eq by auto
qed

text \<open>A write to the palette, then a read of it at an address with the same index.\<close>

lemma palette_write_read:
  assumes len: "length (palette p) = 32"
    and a: "0x3F00 \<le> a \<and> a \<le> 0x3FFF" and b: "0x3F00 \<le> b \<and> b \<le> 0x3FFF"
    and same: "palette_index b = palette_index a"
  shows "ppuRead (fst (ppuWrite c p a val)) (snd (ppuWrite c p a val)) b = Num (val AND 0x3F)"
proof -
  from a have a14: "a AND 0x3FFF = a" by (simp add: and_3FFF_mod)
  from b have b14: "b AND 0x3FFF = b" by (simp add: and_3FFF_mod)
  have w: "ppuWrite c p a val =
             (c, p\<lparr>palette := ta_set (palette p) (palette_index a) ((val AND 0xFF) AND 0x3F)\<rparr>)"
    using a by (simp add: ppuWrite_def a14 Let_def)
  have v: "((val AND 0xFF) AND 0x3F) mod 256 = val AND 0x3F"
    by (simp add: and_255_mod and_3F_mod mod_mod_cancel)
  have i: "nat (palette_index a) < 32" using palette_index_range [of a] by linarith
  show ?thesis
    using b len i palette_index_range [of a] v
    by (simp add: w ppuRead_def b14 Let_def same ta_get_def ta_set_def and_3F_mod)
qed


lemma palette_alias_small:
  "\<forall>m\<in>set [0..31]. \<forall>n\<in>set [0..31].
     m mod 4 = 0 \<and> n mod 4 = 0 \<and> n mod 16 = m mod 16 \<longrightarrow>
     (if n mod 4 = 0 \<and> 16 \<le> n then n - 16 else n) =
     (if m mod 4 = 0 \<and> 16 \<le> m then m - 16 else m)"
  by code_simp

lemma palette_index_alias:
  assumes "b mod 32 = a mod 32 \<or> (a mod 4 = 0 \<and> b mod 4 = 0 \<and> b mod 16 = a mod 16)"
  shows "palette_index b = palette_index a"
  using assms
proof
  assume e: "b mod 32 = a mod 32"
  then have "b mod 32 mod 4 = a mod 32 mod 4" by simp
  then have "b mod 4 = a mod 4" by (simp add: mod_mod_cancel)
  with e show ?thesis by (simp add: palette_index_eq)
next
  assume h: "a mod 4 = 0 \<and> b mod 4 = 0 \<and> b mod 16 = a mod 16"
  have ma: "a mod 32 \<in> set [0..31]" and mb: "b mod 32 \<in> set [0..31]" by simp_all
  have q: "a mod 32 mod 4 = a mod 4" "b mod 32 mod 4 = b mod 4"
    "a mod 32 mod 16 = a mod 16" "b mod 32 mod 16 = b mod 16"
    by (simp_all add: mod_mod_cancel)
  have imp: "a mod 32 mod 4 = 0 \<and> b mod 32 mod 4 = 0 \<and> b mod 32 mod 16 = a mod 32 mod 16 \<longrightarrow>
     (if b mod 32 mod 4 = 0 \<and> 16 \<le> b mod 32 then b mod 32 - 16 else b mod 32) =
     (if a mod 32 mod 4 = 0 \<and> 16 \<le> a mod 32 then a mod 32 - 16 else a mod 32)"
    by (rule bspec [OF bspec [OF palette_alias_small ma] mb])
  from mp [OF imp [unfolded q] h] show ?thesis unfolding palette_index_eq .
qed

text \<open>Two offsets of the window share a cell only when they are equal or aliased.\<close>

lemma palette_distinct_small:
  "\<forall>m\<in>set [0..31]. \<forall>n\<in>set [0..31].
     (if n mod 4 = 0 \<and> 16 \<le> n then n - 16 else n) =
     (if m mod 4 = 0 \<and> 16 \<le> m then m - 16 else m) \<longrightarrow>
     n = m \<or> (m mod 4 = 0 \<and> n mod 4 = 0 \<and> n mod 16 = m mod 16)"
  by code_simp

lemma palette_index_distinct:
  assumes e: "palette_index b = palette_index a"
  shows "b mod 32 = a mod 32 \<or> (a mod 4 = 0 \<and> b mod 4 = 0 \<and> b mod 16 = a mod 16)"
proof -
  have ma: "a mod 32 \<in> set [0..31]" and mb: "b mod 32 \<in> set [0..31]" by simp_all
  have q: "a mod 32 mod 4 = a mod 4" "b mod 32 mod 4 = b mod 4"
    "a mod 32 mod 16 = a mod 16" "b mod 32 mod 16 = b mod 16"
    by (simp_all add: mod_mod_cancel)
  have imp: "(if b mod 32 mod 4 = 0 \<and> 16 \<le> b mod 32 then b mod 32 - 16 else b mod 32) =
     (if a mod 32 mod 4 = 0 \<and> 16 \<le> a mod 32 then a mod 32 - 16 else a mod 32) \<longrightarrow>
     b mod 32 = a mod 32 \<or>
     (a mod 32 mod 4 = 0 \<and> b mod 32 mod 4 = 0 \<and> b mod 32 mod 16 = a mod 32 mod 16)"
    by (rule bspec [OF bspec [OF palette_distinct_small ma] mb])
  from mp [OF imp [unfolded q] e [unfolded palette_index_eq]] show ?thesis .
qed

text \<open>The cell that a palette write stores to, and the cell that a palette read loads.\<close>

lemma palette_cell_write:
  assumes len: "length (palette p) = 32" and a: "0x3F00 \<le> a \<and> a \<le> 0x3FFF"
  shows "ppuWrite c p a val =
           (c, p\<lparr>palette := (palette p)[nat (palette_index a) := val AND 0x3F]\<rparr>)"
proof -
  from a have a14: "a AND 0x3FFF = a" by (simp add: and_3FFF_mod)
  have v: "((val AND 0xFF) AND 0x3F) mod 256 = val AND 0x3F"
    by (simp add: and_255_mod and_3F_mod mod_mod_cancel)
  show ?thesis
    using a len palette_index_range [of a] v
    by (simp add: ppuWrite_def a14 Let_def ta_set_def)
qed

lemma palette_cell_read:
  assumes len: "length (palette p) = 32" and b: "0x3F00 \<le> b \<and> b \<le> 0x3FFF"
  shows "ppuRead c p b = Num ((palette p ! nat (palette_index b)) AND 0x3F)"
proof -
  from b have b14: "b AND 0x3FFF = b" by (simp add: and_3FFF_mod)
  show ?thesis
    using b len palette_index_range [of b]
    by (simp add: ppuRead_def b14 Let_def ta_get_def)
qed

text \<open>A write to the palette leaves the reads of every other cell as they were.\<close>

lemma palette_write_other:
  assumes len: "length (palette p) = 32"
    and a: "0x3F00 \<le> a \<and> a \<le> 0x3FFF" and b: "0x3F00 \<le> b \<and> b \<le> 0x3FFF"
    and other: "palette_index b \<noteq> palette_index a"
  shows "ppuRead (fst (ppuWrite c p a val)) (snd (ppuWrite c p a val)) b = ppuRead c p b"
proof -
  let ?q = "p\<lparr>palette := (palette p)[nat (palette_index a) := val AND 0x3F]\<rparr>"
  have lq: "length (palette ?q) = 32" using len by simp
  have n: "nat (palette_index a) \<noteq> nat (palette_index b)"
    using other palette_index_range [of a] palette_index_range [of b] by linarith
  have "ppuRead c ?q b = Num ((palette ?q ! nat (palette_index b)) AND 0x3F)"
    by (rule palette_cell_read [OF lq b])
  also have "\<dots> = Num ((palette p ! nat (palette_index b)) AND 0x3F)"
    using n by simp
  also have "\<dots> = ppuRead c p b"
    by (rule palette_cell_read [OF len b, symmetric])
  finally show ?thesis by (simp add: palette_cell_write [OF len a])
qed

text \<open>
  C5. The palette is 32 bytes, mirrored every 32 bytes over \<open>$3F00-$3FFF\<close>, with
  \<open>$3F10/$3F14/$3F18/$3F1C\<close> being the cells \<open>$3F00/$3F04/$3F08/$3F0C\<close>. With a palette
  of that length and palette addresses \<open>a\<close> and \<open>b\<close>:
  \<^item> \<open>ppuWrite\<close> at \<open>a\<close> stores the low six bits of the byte in the cell \<open>a mod 32\<close>, or
    in the cell \<open>a mod 32 - 16\<close> when \<open>a mod 32\<close> is 16, 20, 24 or 28, and changes nothing
    else of the PPU or the cartridge;
  \<^item> \<open>ppuRead\<close> at \<open>b\<close> gives the low six bits of the cell of \<open>b\<close>, found the same way;
  \<^item> after the write at \<open>a\<close>, the read at \<open>b\<close> gives the written bits when \<open>b\<close> is \<open>a\<close>
    plus a multiple of 32, or when both are multiples of 4 that differ by a multiple of
    16; at every other \<open>b\<close> it gives what it gave before the write, so the 32 cells are
    distinct;
  \<^item> the palette keeps its 32 cells;
  \<^item> \<open>$0A\<close> written at \<open>$3F10\<close> is read at \<open>$3F00\<close>, and \<open>$17\<close> written at \<open>$3F04\<close> is
    read at \<open>$3F14\<close>.
\<close>

theorem palette_mirror_aliasing:
  assumes "length (palette p) = 32"
    and "0x3F00 \<le> a \<and> a \<le> 0x3FFF" and "0x3F00 \<le> b \<and> b \<le> 0x3FFF"
  shows "ppuWrite c p a val =
           (c, p\<lparr>palette := (palette p)
                  [nat (if a mod 4 = 0 \<and> 16 \<le> a mod 32 then a mod 32 - 16 else a mod 32)
                     := val AND 0x3F]\<rparr>)
       \<and> ppuRead c p b =
           Num ((palette p !
                  nat (if b mod 4 = 0 \<and> 16 \<le> b mod 32 then b mod 32 - 16 else b mod 32))
                AND 0x3F)
       \<and> ppuRead (fst (ppuWrite c p a val)) (snd (ppuWrite c p a val)) b =
           (if b mod 32 = a mod 32 \<or> (a mod 4 = 0 \<and> b mod 4 = 0 \<and> b mod 16 = a mod 16)
            then Num (val AND 0x3F) else ppuRead c p b)
       \<and> length (palette (snd (ppuWrite c p a val))) = 32
       \<and> ppuRead (fst (ppuWrite c p 0x3F10 0x0A)) (snd (ppuWrite c p 0x3F10 0x0A)) 0x3F00
             = Num 0x0A
       \<and> ppuRead (fst (ppuWrite c p 0x3F04 0x17)) (snd (ppuWrite c p 0x3F04 0x17)) 0x3F14
             = Num 0x17"
proof -
  have w: "ppuWrite c p a val =
           (c, p\<lparr>palette := (palette p)
                  [nat (if a mod 4 = 0 \<and> 16 \<le> a mod 32 then a mod 32 - 16 else a mod 32)
                     := val AND 0x3F]\<rparr>)"
    using palette_cell_write [OF assms(1,2)] by (simp only: palette_index_eq)
  have r: "ppuRead c p b =
           Num ((palette p !
                  nat (if b mod 4 = 0 \<and> 16 \<le> b mod 32 then b mod 32 - 16 else b mod 32))
                AND 0x3F)"
    using palette_cell_read [OF assms(1,3)] by (simp only: palette_index_eq)
  have g: "ppuRead (fst (ppuWrite c p a val)) (snd (ppuWrite c p a val)) b =
           (if b mod 32 = a mod 32 \<or> (a mod 4 = 0 \<and> b mod 4 = 0 \<and> b mod 16 = a mod 16)
            then Num (val AND 0x3F) else ppuRead c p b)"
  proof (cases "palette_index b = palette_index a")
    case True
    show ?thesis
      by (subst if_P [OF palette_index_distinct [OF True]])
         (rule palette_write_read [OF assms(1-3) True])
  next
    case False
    have neg: "\<not> (b mod 32 = a mod 32 \<or> (a mod 4 = 0 \<and> b mod 4 = 0 \<and> b mod 16 = a mod 16))"
    proof
      assume "b mod 32 = a mod 32 \<or> (a mod 4 = 0 \<and> b mod 4 = 0 \<and> b mod 16 = a mod 16)"
      from False palette_index_alias [OF this] show False by (rule notE)
    qed
    show ?thesis
      by (subst if_not_P [OF neg]) (rule palette_write_other [OF assms(1-3) False])
  qed
  have l: "length (palette (snd (ppuWrite c p a val))) = 32"
    using assms(1) by (simp add: palette_cell_write [OF assms(1,2)])
  have i1: "palette_index 0x3F00 = palette_index 0x3F10"
    by (rule palette_index_alias) simp
  have i2: "palette_index 0x3F14 = palette_index 0x3F04"
    by (rule palette_index_alias) simp
  have s1: "ppuRead (fst (ppuWrite c p 0x3F10 0x0A)) (snd (ppuWrite c p 0x3F10 0x0A)) 0x3F00
             = Num (0x0A AND 0x3F)"
    by (rule palette_write_read [OF assms(1) _ _ i1]) simp_all
  have s2: "ppuRead (fst (ppuWrite c p 0x3F04 0x17)) (snd (ppuWrite c p 0x3F04 0x17)) 0x3F14
             = Num (0x17 AND 0x3F)"
    by (rule palette_write_read [OF assms(1) _ _ i2]) simp_all
  have s1': "ppuRead (fst (ppuWrite c p 0x3F10 0x0A)) (snd (ppuWrite c p 0x3F10 0x0A)) 0x3F00
             = Num 0x0A" using s1 by simp
  have s2': "ppuRead (fst (ppuWrite c p 0x3F04 0x17)) (snd (ppuWrite c p 0x3F04 0x17)) 0x3F14
             = Num 0x17" using s2 by simp
  from w r g l s1' s2' show ?thesis by (intro conjI)
qed

theorem palette_mirror_aliasing_witness:
  "length (palette (PPU_new (cart_of Mapper0 []))) = 32
   \<and> ppuRead (fst (ppuWrite (cart_of Mapper0 []) (PPU_new (cart_of Mapper0 [])) 0x3F18 0x6C))
              (snd (ppuWrite (cart_of Mapper0 []) (PPU_new (cart_of Mapper0 [])) 0x3F18 0x6C))
              0x3FE8 = Num 0x2C
   \<and> ppuRead (fst (ppuWrite (cart_of Mapper0 []) (PPU_new (cart_of Mapper0 [])) 0x3F11 0x15))
              (snd (ppuWrite (cart_of Mapper0 []) (PPU_new (cart_of Mapper0 [])) 0x3F11 0x15))
              0x3F11 = Num 0x15
   \<and> ppuRead (fst (ppuWrite (cart_of Mapper0 []) (PPU_new (cart_of Mapper0 [])) 0x3F11 0x15))
              (snd (ppuWrite (cart_of Mapper0 []) (PPU_new (cart_of Mapper0 [])) 0x3F11 0x15))
              0x3F01 = Num 0
   \<and> ppuRead (fst (ppuWrite (cart_of Mapper0 []) (PPU_new (cart_of Mapper0 [])) 0x3F10 0x0A))
              (snd (ppuWrite (cart_of Mapper0 []) (PPU_new (cart_of Mapper0 [])) 0x3F10 0x0A))
              0x3F00 = Num 0x0A"
proof -
  let ?c = "cart_of Mapper0 []"
  have z: "palette (PPU_new ?c) = replicate 32 0" by (simp add: PPU_new_def)
  have l: "length (palette (PPU_new ?c)) = 32" by (simp add: z)
  have r18: "0x3F00 \<le> (0x3F18::int) \<and> (0x3F18::int) \<le> 0x3FFF"
    and rE8: "0x3F00 \<le> (0x3FE8::int) \<and> (0x3FE8::int) \<le> 0x3FFF"
    and r11: "0x3F00 \<le> (0x3F11::int) \<and> (0x3F11::int) \<le> 0x3FFF"
    and r01: "0x3F00 \<le> (0x3F01::int) \<and> (0x3F01::int) \<le> 0x3FFF" by simp_all
  note far = palette_mirror_aliasing [OF l r18 rE8, where c = ?c and val = "0x6C"]
  note same = palette_mirror_aliasing [OF l r11 r11, where c = ?c and val = "0x15"]
  note other = palette_mirror_aliasing [OF l r11 r01, where c = ?c and val = "0x15"]
  have before: "ppuRead ?c (PPU_new ?c) 0x3F01 = Num 0"
    using other [THEN conjunct2, THEN conjunct1] by (simp add: z)
  show ?thesis
    using l far [THEN conjunct2, THEN conjunct2, THEN conjunct1]
      same [THEN conjunct2, THEN conjunct2, THEN conjunct1]
      other [THEN conjunct2, THEN conjunct2, THEN conjunct1] before
      far [THEN conjunct2, THEN conjunct2, THEN conjunct2, THEN conjunct2, THEN conjunct1]
    by simp
qed

subsection \<open>The mirrors of the internal RAM\<close>

text \<open>
  C6. With the 2 KiB of RAM of the bus, for every address \<open>a\<close> in \<open>$0000-$1FFF\<close> and
  every byte \<open>v\<close>: after \<open>cpuWrite(a, v)\<close>, \<open>cpuRead(a')\<close> returns \<open>v\<close> for each
  \<open>a'\<close> among \<open>a & 0x7FF\<close> and that plus \<open>0x800\<close>, \<open>0x1000\<close>, \<open>0x1800\<close>, and the read
  changes nothing.
\<close>

theorem ram_mirrors_read_back:
  assumes "length (ram s) = 0x800" and "0 \<le> a" and "a \<le> 0x1FFF"
    and "0 \<le> v" and "v \<le> 0xFF"
    and "a' = (a AND 0x7FF) \<or> a' = (a AND 0x7FF) + 0x800
         \<or> a' = (a AND 0x7FF) + 0x1000 \<or> a' = (a AND 0x7FF) + 0x1800"
  shows "cpuRead (cpuWrite s a v) a' = (Num v, cpuWrite s a v)"
proof -
  have m: "0 \<le> a mod 2048 \<and> a mod 2048 < 2048" by simp
  have k: "(a mod 2048 + 2048 * k) mod 2048 = a mod 2048" for k :: int
    by (simp add: mod_mult_self2)
  from assms(6) have a': "a' = a mod 2048 + 2048 * 0 \<or> a' = a mod 2048 + 2048 * 1
      \<or> a' = a mod 2048 + 2048 * 2 \<or> a' = a mod 2048 + 2048 * 3"
    by (simp add: and_7FF_mod)
  then have idx: "a' mod 2048 = a mod 2048" using k by metis
  from a' m have rng: "0 \<le> a' \<and> a' \<le> 0x1FFF" by linarith
  from assms(4,5) have byte: "v AND 0xFF = v" "v mod 256 = v" by (simp_all add: and_255_mod)
  have "nat (a mod 2048) < 2048" using m by linarith
  then show ?thesis
    using assms(1) m byte
    by (simp add: ram_write [OF assms(2,3)] ram_read rng idx ta_get_def ta_set_def)
qed

theorem ram_mirrors_read_back_witness:
  "length (ram (nes_new (cart_of Mapper0 []))) = 0x800
   \<and> fst (cpuRead (cpuWrite (nes_new (cart_of Mapper0 [])) 0x0A34 0x5C) 0x1A34) = Num 0x5C
   \<and> fst (cpuRead (cpuWrite (nes_new (cart_of Mapper0 [])) 0x0A34 0x5C) 0x0234) = Num 0x5C"
proof -
  let ?s = "nes_new (cart_of Mapper0 [])"
  have l: "length (ram ?s) = 0x800" by (simp add: nes_new_def)
  have "cpuRead (cpuWrite ?s 0x0A34 0x5C) 0x1A34 = (Num 0x5C, cpuWrite ?s 0x0A34 0x5C)"
    by (rule ram_mirrors_read_back [OF l]) simp_all
  moreover
  have "cpuRead (cpuWrite ?s 0x0A34 0x5C) 0x0234 = (Num 0x5C, cpuWrite ?s 0x0A34 0x5C)"
    by (rule ram_mirrors_read_back [OF l]) simp_all
  ultimately show ?thesis using l by simp
qed

subsection \<open>VBlank, NMI and the pre-render line\<close>

text \<open>What one dot does to the status register and the NMI line, case by case.\<close>

lemma PPU_step_flags:
  fixes c p
  defines "q \<equiv> step_prerender (renderingEnabled (step_clear p))
                   (step_visible c (renderingEnabled (step_clear p)) (step_clear p))"
  shows "keeps_vblank (step_clear p) q
       \<and> status (PPU_step c p)
           = (if scanline p = 241 \<and> cycle p = 1 then status q OR 0x80 else status q)
       \<and> nmi (PPU_step c p)
           = (if scanline p = 241 \<and> cycle p = 1 \<and> ctrl p AND 0x80 \<noteq> 0 then True else nmi p)"
proof -
  let ?p1 = "step_clear p"
  let ?re = "renderingEnabled ?p1"
  have k: "keeps_vblank ?p1 q"
    unfolding q_def using kv_step_visible [of ?p1 c ?re] kv_step_prerender
    by (blast intro: kv_trans)
  have c1: "scanline ?p1 = scanline p \<and> cycle ?p1 = cycle p \<and> ctrl ?p1 = ctrl p
            \<and> nmi ?p1 = nmi p"
    by (simp add: step_clear_def)
  from k c1 have f: "scanline q = scanline p" "cycle q = cycle p" "ctrl q = ctrl p" "nmi q = nmi p"
    by (simp_all add: keeps_vblank_def)
  have e: "PPU_step c p = step_advance (step_vblank q)"
    by (simp add: PPU_step_def Let_def q_def)
  show ?thesis
    using k f by (simp add: e step_advance_flags step_vblank_def Let_def)
qed


lemma clear_and_80: "(s AND NOT (0x80 OR 0x40 OR 0x20)) AND 0x80 = (0::int)"
  by (simp add: and.assoc)

lemma clear_and_E0: "(s AND NOT (0x80 OR 0x40 OR 0x20)) AND 0xE0 = (0::int)"
  by (simp add: and.assoc)

lemma clear_and_E0': "(s AND - 225) AND 224 = (0::int)"
  by (simp add: and.assoc)

lemma clear_and_80': "(s AND - 225) AND 128 = (0::int)"
  by (simp add: and.assoc)

lemma prerender_line_status:
  assumes "scanline p = 261" "cycle p = 1"
  shows "status (PPU_step c p) = status p AND NOT (0x80 OR 0x40 OR 0x20)"
proof -
  let ?p1 = "step_clear p"
  let ?re = "renderingEnabled ?p1"
  have s1: "scanline ?p1 = 261" "cycle ?p1 = 1"
    using assms by (simp_all add: step_clear_def)
  have v: "step_visible c ?re ?p1 = ?p1" using s1 by (simp add: step_visible_def)
  have "status (PPU_step c p) = status (step_prerender ?re (step_visible c ?re ?p1))"
    using assms(1) PPU_step_flags [where c = c and p = p] by simp
  also have "\<dots> = status (step_prerender ?re ?p1)" by (simp only: v)
  also have "\<dots> = status ?p1" using s1 by (simp add: step_prerender_def)
  also have "\<dots> = status p AND NOT (0x80 OR 0x40 OR 0x20)"
    using assms by (simp add: step_clear_def)
  finally show ?thesis .
qed

text \<open>
  C7. For every PPU state (reachable or not): the step at scanline 241, dot 1 leaves bit 7
  of the status register set, and raises the NMI line when bit 7 of \<open>ctrl\<close> is set and
  leaves it as it was otherwise; the step at scanline 261, dot 1 leaves bits 7, 6 and 5 of
  the status register clear; a step at any other scanline and dot sets neither bit 7 (it is
  set afterwards only if it was set before) nor the NMI line.
\<close>

theorem vblank_flag_timing:
  "(scanline p = 241 \<and> cycle p = 1 \<longrightarrow>
      status (PPU_step c p) AND 0x80 \<noteq> 0
      \<and> nmi (PPU_step c p) = (nmi p \<or> ctrl p AND 0x80 \<noteq> 0))
   \<and> (scanline p = 261 \<and> cycle p = 1 \<longrightarrow> status (PPU_step c p) AND 0xE0 = 0)
   \<and> (\<not> (scanline p = 241 \<and> cycle p = 1) \<longrightarrow>
         (status (PPU_step c p) AND 0x80 \<noteq> 0 \<longrightarrow> status p AND 0x80 \<noteq> 0)
         \<and> nmi (PPU_step c p) = nmi p)"
proof -
  define q where "q = step_prerender (renderingEnabled (step_clear p))
                   (step_visible c (renderingEnabled (step_clear p)) (step_clear p))"
  note F = PPU_step_flags [where c = c and p = p, folded q_def]
  from F have b7: "status q AND 0x80 = status (step_clear p) AND 0x80"
    by (simp add: keeps_vblank_def)
  have a: "status (PPU_step c p) AND 0x80 \<noteq> 0
           \<and> nmi (PPU_step c p) = (nmi p \<or> ctrl p AND 0x80 \<noteq> 0)"
    if "scanline p = 241 \<and> cycle p = 1"
    using that F by (auto simp add: or_and_absorb)
  have b: "status (PPU_step c p) AND 0xE0 = 0" if "scanline p = 261 \<and> cycle p = 1"
    using that prerender_line_status [of p c] by (simp only: clear_and_E0)
  have c: "(status (PPU_step c p) AND 0x80 \<noteq> 0 \<longrightarrow> status p AND 0x80 \<noteq> 0)
           \<and> nmi (PPU_step c p) = nmi p"
    if n: "\<not> (scanline p = 241 \<and> cycle p = 1)"
  proof -
    from n F have s: "status (PPU_step c p) = status q" and m: "nmi (PPU_step c p) = nmi p"
      by auto
    have "status (step_clear p) AND 0x80 \<noteq> 0 \<longrightarrow> status p AND 0x80 \<noteq> 0"
      by (simp add: step_clear_def clear_and_80')
    with s m b7 show ?thesis by simp
  qed
  show ?thesis using a b c by blast
qed

theorem vblank_flag_timing_witness:
  "status (PPU_step (cart_of Mapper0 [])
            (PPU_new (cart_of Mapper0 [])\<lparr>ctrl := 0x80, cycle := 1, scanline := 241\<rparr>))
     AND 0x80 \<noteq> 0
   \<and> nmi (PPU_step (cart_of Mapper0 [])
            (PPU_new (cart_of Mapper0 [])\<lparr>ctrl := 0x80, cycle := 1, scanline := 241\<rparr>))
   \<and> status (PPU_step (cart_of Mapper0 [])
            (PPU_new (cart_of Mapper0 [])\<lparr>status := 0xE0, cycle := 1\<rparr>)) AND 0xE0 = 0
   \<and> \<not> nmi (PPU_step (cart_of Mapper0 [])
            (PPU_new (cart_of Mapper0 [])\<lparr>ctrl := 0x80, cycle := 5, scanline := 100\<rparr>))"
proof -
  let ?c = "cart_of Mapper0 []"
  let ?a = "PPU_new ?c\<lparr>ctrl := 0x80, cycle := 1, scanline := 241\<rparr>"
  let ?b = "PPU_new ?c\<lparr>status := 0xE0, cycle := 1\<rparr>"
  let ?d = "PPU_new ?c\<lparr>ctrl := 0x80, cycle := 5, scanline := 100\<rparr>"
  have a: "status (PPU_step ?c ?a) AND 0x80 \<noteq> 0 \<and> nmi (PPU_step ?c ?a)"
    using vblank_flag_timing [of ?a ?c, THEN conjunct1] by simp
  have b: "status (PPU_step ?c ?b) AND 0xE0 = 0"
    using vblank_flag_timing [of ?b ?c, THEN conjunct2, THEN conjunct1]
    by (simp add: PPU_new_def)
  have d: "\<not> nmi (PPU_step ?c ?d)"
    using vblank_flag_timing [of ?d ?c, THEN conjunct2, THEN conjunct2]
    by (simp add: PPU_new_def)
  show ?thesis using a b d by simp
qed

subsection \<open>The indirect jump\<close>

lemma opcode_6C: "OPCODES (Num 0x6C) = Some \<lparr>mode = IND, ins = JMP, cyc = 5\<rparr>"
  by (simp add: OPCODES_def opcode_list_def)


text \<open>The two addresses of an indirect jump whose pointer lies in RAM.\<close>

lemma ind_pointer_range:
  fixes pl ph :: int
  assumes "0 \<le> pl" "pl \<le> 0xFF" "0 \<le> ph" "ph < 0x20"
  defines "ptr \<equiv> pl OR push_bit 8 ph"
  defines "hp \<equiv> (ptr AND 0xFF00) OR ((ptr + 1) AND 0xFF)"
  shows "0 \<le> ptr \<and> ptr < 0x2000 \<and> 0 \<le> hp \<and> hp < 0x2000"
proof -
  have p0: "0 \<le> push_bit 8 ph" using assms(3) by simp
  have p1: "push_bit 8 ph < 2 ^ 13" using assms(4) by (simp add: push_bit_eq_mult)
  have l1: "pl < 2 ^ 13" using assms(2) by simp
  have a: "0 \<le> ptr" unfolding ptr_def using assms(1) p0 by simp
  have b: "ptr < 2 ^ 13" unfolding ptr_def using assms(1) l1 p1 by (rule OR_upper)
  have c0: "0 \<le> ptr AND 0xFF00" using a by simp
  have c1: "ptr AND 0xFF00 \<le> ptr" using a by (rule AND_upper1)
  have d0: "0 \<le> (ptr + 1) AND 0xFF" by simp
  have d1: "(ptr + 1) AND 0xFF < 2 ^ 13" by (simp add: and_255_mod) 
  have e: "0 \<le> hp" unfolding hp_def using c0 d0 by simp
  have "ptr AND 0xFF00 < 2 ^ 13" using c1 b by linarith
  with c0 have f: "hp < 2 ^ 13" unfolding hp_def using d1 by (rule OR_upper)
  show ?thesis using a b e f by simp
qed

lemma ind_same_page:
  fixes ptr :: int
  shows "((ptr AND 0xFF00) OR ((ptr + 1) AND 0xFF)) AND 0xFF00 = ptr AND 0xFF00"
    and "((ptr AND 0xFF00) OR ((ptr + 1) AND 0xFF)) AND 0xFF = (ptr + 1) AND 0xFF"
  by (simp_all add: bit.conj_disj_distrib2 and.assoc)


text \<open>
  One step at \<open>$8000\<close> over the bytes \<open>6C pl ph\<close>, with the pointer in RAM: the target
  is read at the pointer and at \<open>(ptr & 0xFF00) | ((ptr + 1) & 0xFF)\<close>.
\<close>

lemma jmp_indirect_step:
  fixes s :: "('c, 'a) nes" and pl ph :: int
  defines "ptr \<equiv> pl OR push_bit 8 ph"
  defines "hp \<equiv> (ptr AND 0xFF00) OR ((ptr + 1) AND 0xFF)"
  assumes st: "stall (cpu s) = 0" and pc: "reg_pc (cpu s) = Num 0x8000"
    and len: "3 \<le> length (prg (cart s))"
    and b0: "prg (cart s) ! 0 = 0x6C" and b1: "prg (cart s) ! 1 = pl"
    and b2: "prg (cart s) ! 2 = ph"
    and rng: "0 \<le> pl" "pl \<le> 0xFF" "0 \<le> ph" "ph < 0x20"
    and ram: "length (ram s) = 0x800"
  shows "reg_pc (cpu (snd (CPU_step s)))
           = Num (ram s ! nat (ptr mod 2048) OR push_bit 8 (ram s ! nat (hp mod 2048)))"
proof -
  define s1 where "s1 = s\<lparr>cpu := (cpu s)\<lparr>reg_pc := Num 0x8001\<rparr>\<rparr>"
  have l0: "(0x8000::int) - 0x8000 < int (length (prg (cart s)))"
    and l1: "(0x8001::int) - 0x8000 < int (length (prg (cart s)))"
    and l2: "(0x8002::int) - 0x8000 < int (length (prg (cart s)))"
    using len by auto
  have f1: "fetch_pc s = (Num 0x6C, s1)"
    using fetch_pc_prg [OF pc _ _ l0] b0 by (simp add: s1_def)
  define s2 where "s2 = s1\<lparr>cpu := (cpu s1)\<lparr>addrMode := Some IND, pageCross := 0\<rparr>\<rparr>"
  have q2: "reg_pc (cpu s2) = Num 0x8001" "cart s2 = cart s" "ram s2 = ram s"
    by (simp_all add: s2_def s1_def)
  define s3 where "s3 = s2\<lparr>cpu := (cpu s2)\<lparr>reg_pc := Num 0x8002\<rparr>\<rparr>"
  have f2: "fetch_pc s2 = (Num pl, s3)"
    using fetch_pc_prg [OF q2(1) _ _ l1 [folded q2(2)]] b1 by (simp add: s3_def q2)
  have q3: "reg_pc (cpu s3) = Num 0x8002" "cart s3 = cart s" "ram s3 = ram s"
    by (simp_all add: s3_def q2)
  define s4 where "s4 = s3\<lparr>cpu := (cpu s3)\<lparr>reg_pc := Num 0x8003\<rparr>\<rparr>"
  have f3: "fetch_pc s3 = (Num ph, s4)"
    using fetch_pc_prg [OF q3(1) _ _ l2 [folded q3(2)]] b2 by (simp add: s4_def q3)
  have q4: "ram s4 = ram s" by (simp add: s4_def q3)
  have ab: "am_abs s2 = (Num ptr, s4)" by (simp add: am_abs_def f2 f3 ptr_def)
  note R = ind_pointer_range [OF rng, folded ptr_def, folded hp_def]
  have len4: "length (ram s4) = 0x800" using ram q4 by simp
  have r1: "CPU_read s4 (Num ptr) = (Num (ram s ! nat (ptr mod 2048)), s4)"
    using CPU_read_ram [of ptr s4] R len4 by (simp add: q4)
  have r2: "CPU_read s4 (Num hp) = (Num (ram s ! nat (hp mod 2048)), s4)"
    using CPU_read_ram [of hp s4] R len4 by (simp add: q4)
  let ?t = "Num (ram s ! nat (ptr mod 2048) OR push_bit 8 (ram s ! nat (hp mod 2048)))"
  have ind: "am_ind s2 = (?t, s4)"
    by (simp add: am_ind_def ab r1 r2 js_add_def hp_def [symmetric])
  have fa: "fetchAddr s2 IND = (?t, s4)" by (simp add: fetchAddr_def ind)
  have ex: "execute s4 JMP ?t = upd_cpu (\<lambda>c. c\<lparr>reg_pc := ?t\<rparr>) s4"
    by (simp add: execute_def)
  have "reg_pc (cpu (snd (CPU_step s))) = ?t"
    using st
    by (simp add: CPU_step_def f1 opcode_6C upd_cpu_def fa [unfolded s2_def]
        ex [unfolded upd_cpu_def] Let_def)
  then show ?thesis .
qed


text \<open>
  C8. One step of a CPU that is not stalled, at \<open>$8000\<close>, over the bytes \<open>6C pl ph\<close> of
  the cartridge, the pointer \<open>ptr\<close> made of \<open>pl\<close> and \<open>ph\<close> lying in RAM: \<open>pc\<close> becomes
  the byte at \<open>ptr\<close> with, as its high byte, the byte at the address \<open>hp\<close> that has the
  page of \<open>ptr\<close> and the offset of \<open>ptr + 1\<close>, not the byte at \<open>ptr + 1\<close>. With
  \<open>6C FF 10\<close>, \<open>$34\<close> at \<open>$10FF\<close>, \<open>$12\<close> at \<open>$1000\<close> and \<open>$56\<close> at \<open>$1100\<close>
  (the RAM cells \<open>$0FF\<close>, \<open>$000\<close>, \<open>$100\<close>), \<open>pc\<close> becomes \<open>$1234\<close>.
\<close>

theorem jmp_indirect_page_wrap:
  fixes s :: "('c, 'a) nes" and pl ph :: int
  defines "ptr \<equiv> pl OR push_bit 8 ph"
  defines "hp \<equiv> (ptr AND 0xFF00) OR ((ptr + 1) AND 0xFF)"
  assumes "stall (cpu s) = 0" and "reg_pc (cpu s) = Num 0x8000"
    and "3 \<le> length (prg (cart s))"
    and "prg (cart s) ! 0 = 0x6C" and "prg (cart s) ! 1 = pl" and "prg (cart s) ! 2 = ph"
    and "0 \<le> pl" "pl \<le> 0xFF" "0 \<le> ph" "ph < 0x20"
    and "length (ram s) = 0x800"
  shows "reg_pc (cpu (snd (CPU_step s)))
           = Num (ram s ! nat (ptr mod 2048) OR push_bit 8 (ram s ! nat (hp mod 2048)))
       \<and> hp AND 0xFF00 = ptr AND 0xFF00
       \<and> hp AND 0xFF = (ptr + 1) AND 0xFF
       \<and> (pl = 0xFF \<and> ph = 0x10 \<and> ram s ! 0xFF = 0x34 \<and> ram s ! 0 = 0x12
            \<and> ram s ! 0x100 = 0x56
            \<longrightarrow> reg_pc (cpu (snd (CPU_step s))) = Num 0x1234)"
proof -
  note J = jmp_indirect_step [OF assms(3-13), folded ptr_def, folded hp_def]
  have pg: "hp AND 0xFF00 = ptr AND 0xFF00" "hp AND 0xFF = (ptr + 1) AND 0xFF"
    unfolding hp_def by (rule ind_same_page)+
  have sc: "reg_pc (cpu (snd (CPU_step s))) = Num 0x1234"
    if h: "pl = 0xFF \<and> ph = 0x10 \<and> ram s ! 0xFF = 0x34 \<and> ram s ! 0 = 0x12
           \<and> ram s ! 0x100 = 0x56"
  proof -
    from h have p: "ptr = 0x10FF" by (simp add: ptr_def)
    then have q: "hp = 0x1000" by (simp add: hp_def)
    show ?thesis using J h by (simp add: p q)
  qed
  show ?thesis using J pg sc by blast
qed

lemma jmp_wrap_machine_eq:
  "jmp_wrap_machine =
     (machine_at [0x6C, 0xFF, 0x10])\<lparr>ram := (replicate 2048 0)[0xFF := 0x34, 0 := 0x12, 0x100 := 0x56]\<rparr>"
  by (simp add: jmp_wrap_machine_def ram_write machine_at_def nes_new_def ta_set_def)

theorem jmp_indirect_page_wrap_witness:
  "stall (cpu jmp_wrap_machine) = 0 \<and> reg_pc (cpu jmp_wrap_machine) = Num 0x8000
   \<and> prg (cart jmp_wrap_machine) ! 1 = 0xFF \<and> prg (cart jmp_wrap_machine) ! 2 = 0x10
   \<and> ram jmp_wrap_machine ! 0xFF = 0x34 \<and> ram jmp_wrap_machine ! 0 = 0x12
   \<and> ram jmp_wrap_machine ! 0x100 = 0x56
   \<and> reg_pc (cpu (snd (CPU_step jmp_wrap_machine))) = Num 0x1234
   \<and> reg_pc (cpu (snd (CPU_step jmp_wrap_machine))) \<noteq> Num 0x5634"
proof -
  have c: "stall (cpu jmp_wrap_machine) = 0" "reg_pc (cpu jmp_wrap_machine) = Num 0x8000"
    by (simp_all add: jmp_wrap_machine_eq machine_at_cpu)
  have p: "3 \<le> length (prg (cart jmp_wrap_machine))" "prg (cart jmp_wrap_machine) ! 0 = 0x6C"
    "prg (cart jmp_wrap_machine) ! 1 = 0xFF" "prg (cart jmp_wrap_machine) ! 2 = 0x10"
    by (simp_all add: jmp_wrap_machine_eq machine_at_def nes_new_def cart_of_def)
  have r: "length (ram jmp_wrap_machine) = 0x800" "ram jmp_wrap_machine ! 0xFF = 0x34"
    "ram jmp_wrap_machine ! 0 = 0x12" "ram jmp_wrap_machine ! 0x100 = 0x56"
    by (simp_all add: jmp_wrap_machine_eq)
  have "reg_pc (cpu (snd (CPU_step jmp_wrap_machine))) = Num 0x1234"
    using jmp_indirect_page_wrap [OF c p(1-4) _ _ _ _ r(1)] r(2-4) by simp
  then show ?thesis using c p r by simp
qed

subsection \<open>Mapper 1: reset of the shift register\<close>

text \<open>
  C9. On a cartridge with mapper 1, a write of any value with bit 7 set, at any address and
  whatever the shift register holds, sets the shift register to \<open>0x10\<close> and ORs the control
  register with \<open>0x0C\<close>; nothing else of the cartridge changes.
\<close>

theorem mmc1_reset_on_bit7:
  assumes "mapperInstance c = Mapper1 m" and "val AND 0x80 \<noteq> 0"
  shows "prgWrite c addr val =
           c\<lparr>mapperInstance := Mapper1 (m\<lparr>m1_shift := 0x10, m1_ctrl := m1_ctrl m OR 0x0C\<rparr>)\<rparr>"
  using assms by (simp add: prgWrite_def Mapper1_writeReg_def)

theorem mmc1_reset_on_bit7_witness:
  "mapperInstance (cart_of (Mapper1 (Mapper1_new\<lparr>m1_shift := 0x05\<rparr>)) []) =
     Mapper1 (Mapper1_new\<lparr>m1_shift := 0x05\<rparr>)
   \<and> (0x80 :: int) AND 0x80 \<noteq> 0
   \<and> mapperInstance (prgWrite (cart_of (Mapper1 (Mapper1_new\<lparr>m1_shift := 0x05\<rparr>)) []) 0xE000 0x80)
       = Mapper1 (Mapper1_new\<lparr>m1_shift := 0x10, m1_ctrl := 0x0C\<rparr>)"
proof -
  have a: "mapperInstance (cart_of (Mapper1 (Mapper1_new\<lparr>m1_shift := 0x05\<rparr>)) []) =
             Mapper1 (Mapper1_new\<lparr>m1_shift := 0x05\<rparr>)"
    by (simp add: cart_of_def)
  have b: "(0x80 :: int) AND 0x80 \<noteq> 0" by simp
  show ?thesis
    using mmc1_reset_on_bit7 [OF a b, of "0xE000"] a b by (simp add: Mapper1_new_def)
qed

subsection \<open>OAM DMA inside the PPU\<close>

text \<open>
  C10. For every \<open>oamaddr\<close> and every buffer of 256 bytes, the \<open>i\<close>-th store of \<open>doDMA\<close>
  (\<open>i\<close> from 0 to 255) goes to the index \<open>(oamaddr + i) mod 256\<close>, which lies in
  \<open>[0, 255]\<close>, and after the loop that cell of the OAM holds \<open>buf[i]\<close>; the OAM keeps its
  256 cells and \<open>oamaddr\<close> is as before.
\<close>

theorem doDMA_wraps_within_oam:
  assumes "length buf = 256" and "length (oam p) = 256"
    and "\<forall>b\<in>set buf. 0 \<le> b \<and> b < 256"
  shows "(\<forall>i<256. 0 \<le> doDMA_index p i \<and> doDMA_index p i \<le> 255
            \<and> doDMA_index p i = (oamaddr p + int i) mod 256
            \<and> oam (doDMA p buf) ! nat (doDMA_index p i) = buf ! i)
         \<and> length (oam (doDMA p buf)) = 256
         \<and> oamaddr (doDMA p buf) = oamaddr p"
proof -
  have pre: "length (oam (doDMA p buf)) = 256 \<and>
             (\<forall>i<256. oam (doDMA p buf) ! nat (doDMA_index p i)
                        = to_int (ta_get buf (int i)) mod 256)"
    using doDMA_prefix [OF assms(2), of 256 p buf] by (simp add: doDMA_def)
  have byte: "to_int (ta_get buf (int i)) mod 256 = buf ! i" if "i < 256" for i
  proof -
    from that assms(1) have "buf ! i \<in> set buf" by simp
    with assms(3) have "0 \<le> buf ! i \<and> buf ! i < 256" by blast
    then show ?thesis using that assms(1) by (simp add: ta_get_def)
  qed
  have idx: "0 \<le> doDMA_index p i \<and> doDMA_index p i \<le> 255" for i
    using doDMA_index_range [of p i] by simp
  show ?thesis
    using pre byte idx by (simp add: doDMA_index_mod doDMA_def)
qed

theorem doDMA_wraps_within_oam_witness:
  "length (map int [0..<256]) = 256
   \<and> doDMA_index (PPU_new (cart_of Mapper0 [])\<lparr>oamaddr := 0xF0\<rparr>) 20 = 4
   \<and> oam (doDMA (PPU_new (cart_of Mapper0 [])\<lparr>oamaddr := 0xF0\<rparr>) (map int [0..<256])) ! 4 = 20
   \<and> oamaddr (doDMA (PPU_new (cart_of Mapper0 [])\<lparr>oamaddr := 0xF0\<rparr>) (map int [0..<256])) = 0xF0"
proof -
  let ?p = "PPU_new (cart_of Mapper0 [])\<lparr>oamaddr := 0xF0\<rparr>"
  let ?buf = "map int [0..<256]"
  have a: "length ?buf = 256" by simp
  have b: "length (oam ?p) = 256" by (simp add: PPU_new_def)
  have c: "\<forall>b\<in>set ?buf. 0 \<le> b \<and> b < 256" by auto
  have d: "doDMA_index ?p 20 = 4" by (simp add: doDMA_index_def PPU_new_def)
  have e: "?buf ! 20 = 20" by simp
  from doDMA_wraps_within_oam [OF a b c]
  have all: "\<forall>i<256. oam (doDMA ?p ?buf) ! nat (doDMA_index ?p i) = ?buf ! i"
    and adr: "oamaddr (doDMA ?p ?buf) = oamaddr ?p"
    by blast+
  from all have "oam (doDMA ?p ?buf) ! nat (doDMA_index ?p 20) = ?buf ! 20"
    by (rule allE [where x = 20]) simp
  then show ?thesis using a d e adr by simp
qed

end
